theory Spec2Isabelle
  imports Main
begin

section \<open>auth.cpp: the auth literal\<close>

text \<open>
  \<^verbatim>\<open>auth_t\<close> is a pair of a login and a password (\<^verbatim>\<open>first\<close>, \<^verbatim>\<open>second\<close>).
  \<^verbatim>\<open>std::string::find\<close> returns the index of the first occurrence or \<^verbatim>\<open>npos\<close>;
  \<^verbatim>\<open>npos\<close> is \<open>None\<close> here.
\<close>

record auth_t =
  login :: string
  password :: string

datatype auth_error = Runtime_error string

fun str_find :: "string \<Rightarrow> char \<Rightarrow> nat option" where
  "str_find [] ch = None"
| "str_find (x # xs) ch =
     (if x = ch then Some 0
      else (case str_find xs ch of None \<Rightarrow> None | Some i \<Rightarrow> Some (Suc i)))"

text \<open>\<^verbatim>\<open>str.substr(pos)\<close> and \<^verbatim>\<open>str.substr(0, n)\<close>, for \<open>pos \<le> length str\<close>.\<close>

definition substr_from :: "string \<Rightarrow> nat \<Rightarrow> string" where
  "substr_from str pos = drop pos str"

definition substr_to :: "string \<Rightarrow> nat \<Rightarrow> string" where
  "substr_to str n = take n str"

definition from_string :: "string \<Rightarrow> auth_error + auth_t" where
  "from_string str =
     (case str_find str (CHR '':'') of
        Some ind \<Rightarrow>
          Inr \<lparr> login = substr_to str ind, password = substr_from str (ind + 1) \<rparr>
      | None \<Rightarrow> Inl (Runtime_error (''unexpected auth_t str: '' @ str)))"

definition to_string :: "auth_t \<Rightarrow> string" where
  "to_string a = login a @ '':'' @ password a"

section \<open>connection.cpp: data\<close>

text \<open>
  \<^verbatim>\<open>error_code_t\<close> is declared in a header that is not part of the sources; its
  enumerators are the ones \<^verbatim>\<open>in_final_state\<close> switches over.
\<close>

datatype error_code_t =
    INIT | RESOLVE | CONNECT | HANDSHAKE | WRITE | READ_STATUS | READ_HEADERS
  | READ_CONTENT_LENGTH | READ_CHUNK_HEADER | READ_CHUNK_DATA | READ_UNTIL_EOF
  | SUCCESS
  | RESOLVE_ERROR | CONNECT_ERROR | HANDSHAKE_ERROR | WRITE_ERROR
  | READ_STATUS_ERROR | READ_STATUS_DATA_ERROR | READ_HEADERS_ERROR
  | READ_CONTENT_LENGTH_ERROR | READ_CHUNK_HEADER_ERROR | READ_CHUNK_DATA_ERROR
  | READ_UNTIL_EOF_ERROR | REDIRECT_EXHAUSTED | REDIRECT_ERROR | TIMEOUT | EXPIRED

text \<open>
  The transport error code \<^verbatim>\<open>ec_t\<close>: \<open>No_error\<close> is the value that converts to
  \<^verbatim>\<open>false\<close>; the named errors are the ones the source compares against.
  \<^verbatim>\<open>is_eof\<close> compares \<^verbatim>\<open>ec.value()\<close>, the number without the category, with
  \<^verbatim>\<open>stream_truncated\<close>: \<open>Truncated_value\<close> stands for the errors of other categories
  that have this number, \<open>Other_ec\<close> for every error left.
\<close>

datatype ec_t =
    No_error | Eof | Connection_reset | Connection_aborted | Broken_pipe
  | Stream_truncated | Operation_aborted | Truncated_value | Other_ec nat

record uri_t =
  protocol :: string
  domain :: string
  port :: string
  path :: string
  query :: string

record cookie_t =
  cookie_text :: string
  origin_domain :: string
  origin_path :: string

text \<open>
  The request: the fields the connection and the session read. The two callbacks are
  user functions; the model keeps whether each is configured and records every call
  among the effects. \<^verbatim>\<open>redirect_count_t\<close> wraps a counter whose type is declared
  outside the sources; it is a natural number here.
\<close>

record request_t =
  uri :: uri_t
  auth :: auth_t
  redirect :: bool
  redirect_count :: nat
  keep_alive :: bool
  cache_redirects :: bool
  throw_on_error :: bool
  timeout :: nat
  store_timeout :: nat
  body_callback :: bool
  final_callback :: bool
  cookies :: "cookie_t list"

record error_t =
  code :: error_code_t
  msg :: string

type_synonym headers_t = "(string \<times> string) list"

text \<open>
  The response. An entry of the redirect chain is a copy of a response; the copy's own
  chain is not kept in the model (\<open>response_core\<close> is the response without it).
\<close>

record response_core =
  request :: request_t
  http_major :: nat
  http_minor :: nat
  status_code :: nat
  status_message :: string
  resp_headers :: headers_t
  resp_cookies :: "cookie_t list"
  resp_raw :: string
  error :: error_t
  resp_redirect_count :: nat

record response_t = response_core +
  redirects :: "response_core list"

datatype outcome = Value response_t | Exception error_t

text \<open>
  What the incremental parser reports during one \<^verbatim>\<open>parser->execute\<close>: the callbacks
  it invokes, in order, with their arguments.
\<close>

datatype parser_event =
    Status string nat nat nat
  | Header_field string
  | Header_value string
  | Headers_complete int
  | Body string
  | Chunk_header nat

text \<open>
  The calls the connection makes on its collaborators (resolver, stream, timers, user
  callbacks, promise), in the order it makes them, and the call of
  \<^verbatim>\<open>uri_t::from_string\<close> on the \<^verbatim>\<open>Location\<close> header, which \<^verbatim>\<open>perform_redirect\<close>
  makes when it follows a redirect.
\<close>

datatype effect =
    Resolver_async_resolve string string
  | Resolver_cancel
  | Timeout_timer_async_wait nat
  | Timeout_timer_cancel
  | Dispose_timer_async_wait nat
  | Stream_async_connect
  | Stream_set_option_keep_alive
  | Stream_async_handshake
  | Stream_async_write string
  | Stream_async_read_until string
  | Stream_async_read nat
  | Stream_cancel
  | Stream_close
  | Final_callback response_t
  | Body_callback "string option" nat error_t
  | Promise_set_value response_t
  | Promise_set_exception error_t
  | Uri_from_string string

record stream_t =
  is_open :: bool

text \<open>
  \<^verbatim>\<open>conn_impl_t\<close>. \<open>promise\<close> is the shared state of the promise/future pair
  (\<open>None\<close> while pending). \<open>parser\<close> is the parser's state, given as the buffers it
  has been executed on since it was constructed. \<open>effects\<close> is the log of calls on
  collaborators.
\<close>

record conn_impl_t =
  stream :: stream_t
  promise :: "outcome option"
  response :: response_t
  m_is_reused :: bool
  state :: error_code_t
  request_buf :: string
  response_buf :: string
  parser :: "string list"
  header_field :: string
  content_length :: nat
  raw :: string
  headers :: headers_t
  effects :: "effect list"

text \<open>
  The functions of this repository that \<^verbatim>\<open>connection.cpp\<close> and \<^verbatim>\<open>session.cpp\<close> call
  but that are defined outside the sources (parser, request, response, headers, cookies,
  uri, utils) and the library's \<^verbatim>\<open>ec.message()\<close>: parameters of the model.
  \<open>parser_execute\<close> maps the parser's state and the bytes offered to the callbacks
  invoked and the number of bytes parsed.
\<close>

record externals =
  parser_execute :: "string list \<Rightarrow> string \<Rightarrow> parser_event list \<times> nat"
  make_request :: "request_t \<Rightarrow> string"
  prepare :: "request_t \<Rightarrow> request_t"
  uri_from_string :: "string \<Rightarrow> uri_t"
  cookie_from_string :: "string \<Rightarrow> cookie_t"
  cookies_t_add :: "cookie_t list \<Rightarrow> cookie_t \<Rightarrow> cookie_t list"
  cookies_t_update :: "cookie_t list \<Rightarrow> cookie_t list \<Rightarrow> cookie_t list"
  headers_count :: "headers_t \<Rightarrow> string \<Rightarrow> nat"
  headers_contains :: "headers_t \<Rightarrow> string \<Rightarrow> string \<Rightarrow> bool"
  headers_at :: "headers_t \<Rightarrow> string \<Rightarrow> string"
  headers_insert :: "headers_t \<Rightarrow> string \<Rightarrow> string \<Rightarrow> headers_t"
  tolower :: "string \<Rightarrow> string"
  ec_message :: "ec_t \<Rightarrow> string"
  error_bool :: "error_t \<Rightarrow> bool"
  error_default :: error_t
  redirects_find :: "response_core list \<Rightarrow> request_t \<Rightarrow> response_core option"

section \<open>connection.cpp: helpers of the anonymous namespace\<close>

definition CR :: char where "CR = CHR 0x0D"
definition LF :: char where "LF = CHR 0x0A"

fun peek_crlf :: "string \<Rightarrow> nat option" where
  "peek_crlf [] = None"
| "peek_crlf (x # xs) =
     (if x = CR \<and> xs \<noteq> [] \<and> hd xs = LF then Some 0
      else (case peek_crlf xs of None \<Rightarrow> None | Some i \<Rightarrow> Some (Suc i)))"

definition is_socket_closed :: "ec_t \<Rightarrow> bool" where
  "is_socket_closed ec \<longleftrightarrow>
     ec = Eof \<or> ec = Connection_reset \<or> ec = Connection_aborted \<or> ec = Broken_pipe
     \<or> ec = Stream_truncated"

definition is_eof :: "ec_t \<Rightarrow> bool" where
  "is_eof ec \<longleftrightarrow>
     ec \<noteq> No_error \<and> (ec = Eof \<or> ec = Stream_truncated \<or> ec = Truncated_value)"

definition is_redirect_code :: "nat \<Rightarrow> bool" where
  "is_redirect_code c \<longleftrightarrow> c = 301 \<or> c = 302 \<or> c = 303"

definition is_redirect_exhausted :: "response_t \<Rightarrow> bool" where
  "is_redirect_exhausted r \<longleftrightarrow> resp_redirect_count r \<ge> redirect_count (request r)"

section \<open>connection.cpp: construction\<close>

text \<open>
  Modelled from the spec: \<^verbatim>\<open>response_t\<close>'s constructor from a request is not part of
  the sources. The spec's response holds a back-reference to its request, status, headers,
  cookies, raw body, an error, a redirect counter and a redirect chain; a new response
  has them empty, with the counter at 0 (one followed redirect gives the counter 1).
\<close>

definition response_new :: "externals \<Rightarrow> request_t \<Rightarrow> response_t" where
  "response_new X rq =
     \<lparr> request = rq, http_major = 0, http_minor = 0, status_code = 0,
       status_message = [], resp_headers = [], resp_cookies = [], resp_raw = [],
       error = error_default X, resp_redirect_count = 0, redirects = [] \<rparr>"

definition stream_new :: stream_t where
  "stream_new = \<lparr> is_open = False \<rparr>"

text \<open>\<^verbatim>\<open>conn_impl_t(service, request)\<close>.\<close>

definition conn_new :: "externals \<Rightarrow> request_t \<Rightarrow> conn_impl_t" where
  "conn_new X rq =
     \<lparr> stream = stream_new, promise = None, response = response_new X rq,
       m_is_reused = False, state = INIT, request_buf = [], response_buf = [],
       parser = [], header_field = [], content_length = 0, raw = [], headers = [],
       effects = [] \<rparr>"

text \<open>
  \<^verbatim>\<open>conn_impl_t(service, request, connection)\<close>: the stream is moved out of the
  previous connection, and the constructor body copies the redirect chain of the previous
  connection's response, read through its future (\<open>prev\<close> is that response).
\<close>

definition conn_reuse :: "externals \<Rightarrow> request_t \<Rightarrow> conn_impl_t \<Rightarrow> response_t \<Rightarrow> conn_impl_t" where
  "conn_reuse X rq old prev =
     \<lparr> stream = stream old, promise = None,
       response = (response_new X rq)\<lparr> redirects := redirects prev \<rparr>,
       m_is_reused = True, state = INIT, request_buf = [], response_buf = [],
       parser = [], header_field = [], content_length = 0, raw = [], headers = [],
       effects = [] \<rparr>"

section \<open>connection.cpp: state handling and finalization\<close>

definition emit :: "effect \<Rightarrow> conn_impl_t \<Rightarrow> conn_impl_t" where
  "emit e c = c\<lparr> effects := effects c @ [e] \<rparr>"

definition in_final_state :: "conn_impl_t \<Rightarrow> bool" where
  "in_final_state c =
     (case state c of
        RESOLVE_ERROR \<Rightarrow> True
      | CONNECT_ERROR \<Rightarrow> True
      | HANDSHAKE_ERROR \<Rightarrow> True
      | WRITE_ERROR \<Rightarrow> True
      | READ_STATUS_ERROR \<Rightarrow> True
      | READ_STATUS_DATA_ERROR \<Rightarrow> True
      | READ_HEADERS_ERROR \<Rightarrow> True
      | READ_CONTENT_LENGTH_ERROR \<Rightarrow> True
      | READ_CHUNK_HEADER_ERROR \<Rightarrow> True
      | READ_CHUNK_DATA_ERROR \<Rightarrow> True
      | READ_UNTIL_EOF_ERROR \<Rightarrow> True
      | REDIRECT_EXHAUSTED \<Rightarrow> True
      | REDIRECT_ERROR \<Rightarrow> True
      | TIMEOUT \<Rightarrow> True
      | EXPIRED \<Rightarrow> True
      | SUCCESS \<Rightarrow> True
      | WRITE \<Rightarrow> False
      | READ_STATUS \<Rightarrow> False
      | READ_HEADERS \<Rightarrow> False
      | READ_CONTENT_LENGTH \<Rightarrow> False
      | READ_CHUNK_HEADER \<Rightarrow> False
      | READ_CHUNK_DATA \<Rightarrow> False
      | READ_UNTIL_EOF \<Rightarrow> False
      | INIT \<Rightarrow> False
      | RESOLVE \<Rightarrow> False
      | CONNECT \<Rightarrow> False
      | HANDSHAKE \<Rightarrow> False)"

definition set_state :: "error_code_t \<Rightarrow> conn_impl_t \<Rightarrow> conn_impl_t" where
  "set_state state' c =
     (if \<not> in_final_state c \<or> state c = EXPIRED then c\<lparr> state := state' \<rparr> else c)"

definition is_expired :: "conn_impl_t \<Rightarrow> bool" where
  "is_expired c \<longleftrightarrow> state c = EXPIRED"

definition is_reused :: "conn_impl_t \<Rightarrow> bool" where
  "is_reused c = m_is_reused c"

definition setup_timeout :: "conn_impl_t \<Rightarrow> conn_impl_t" where
  "setup_timeout c = emit (Timeout_timer_async_wait (timeout (request (response c)))) c"

definition setup_dispose_timer :: "conn_impl_t \<Rightarrow> conn_impl_t" where
  "setup_dispose_timer c =
     emit (Dispose_timer_async_wait (store_timeout (request (response c)))) c"

text \<open>
  \<^verbatim>\<open>promise.set_value\<close> and \<^verbatim>\<open>promise.set_exception\<close>: the call is logged, and it
  stores the outcome when the shared state is still pending (on a satisfied promise the
  library raises instead of storing).
\<close>

definition promise_set :: "outcome \<Rightarrow> conn_impl_t \<Rightarrow> conn_impl_t" where
  "promise_set v c =
     (emit (case v of Value r \<Rightarrow> Promise_set_value r | Exception e \<Rightarrow> Promise_set_exception e) c)
       \<lparr> promise := (case promise c of None \<Rightarrow> Some v | Some w \<Rightarrow> Some w) \<rparr>"

text \<open>
  \<^verbatim>\<open>conn_impl_t::end\<close>, statement by statement: the cancellations, the final
  callback, the dispose timer, the stream, the raw body moved into the response, the
  end-of-stream call of the body callback, the promise.
\<close>

definition end_cancel :: "conn_impl_t \<Rightarrow> conn_impl_t" where
  "end_cancel c = emit Timeout_timer_cancel (emit Resolver_cancel c)"

definition end_final_callback :: "conn_impl_t \<Rightarrow> conn_impl_t" where
  "end_final_callback c =
     (if final_callback (request (response c)) then emit (Final_callback (response c)) c else c)"

definition end_stream :: "externals \<Rightarrow> conn_impl_t \<Rightarrow> conn_impl_t" where
  "end_stream X c =
     (if keep_alive (request (response c))
      then (if headers_contains X (resp_headers (response c)) ''Connection'' ''close''
            then (emit Stream_close (emit Stream_cancel c))
                   \<lparr> stream := (stream c)\<lparr> is_open := False \<rparr> \<rparr>
            else c)
      else emit Stream_cancel c)"

definition end_raw :: "conn_impl_t \<Rightarrow> conn_impl_t" where
  "end_raw c = c\<lparr> response := (response c)\<lparr> resp_raw := raw c \<rparr>, raw := [] \<rparr>"

definition end_body_callback :: "conn_impl_t \<Rightarrow> conn_impl_t" where
  "end_body_callback c =
     (if body_callback (request (response c))
      then emit (Body_callback None 0 (error (response c))) c else c)"

definition end_promise :: "externals \<Rightarrow> conn_impl_t \<Rightarrow> conn_impl_t" where
  "end_promise X c =
     (if error_bool X (error (response c)) \<and> throw_on_error (request (response c))
      then promise_set (Exception (error (response c))) c
      else promise_set (Value (response c)) c)"

definition conn_end :: "externals \<Rightarrow> conn_impl_t \<Rightarrow> conn_impl_t" where
  "conn_end X c =
     end_promise X (end_body_callback (end_raw (end_stream X
       (setup_dispose_timer (end_final_callback (end_cancel c))))))"

definition set_error :: "externals \<Rightarrow> error_code_t \<Rightarrow> string \<Rightarrow> conn_impl_t \<Rightarrow> conn_impl_t" where
  "set_error X new_state m c =
     (if in_final_state c then c
      else (let c1 = set_state new_state c;
                c2 = c1\<lparr> response := (response c1)\<lparr> error := \<lparr> code = new_state, msg = m \<rparr> \<rparr> \<rparr>
            in conn_end X c2))"

definition set_error_ec :: "externals \<Rightarrow> error_code_t \<Rightarrow> ec_t \<Rightarrow> conn_impl_t \<Rightarrow> conn_impl_t" where
  "set_error_ec X new_state ec c =
     (if ec = Operation_aborted then c else set_error X new_state (ec_message X ec) c)"

definition prepare_parser :: "conn_impl_t \<Rightarrow> conn_impl_t" where
  "prepare_parser c = c\<lparr> raw := [], header_field := [], content_length := 0, headers := [] \<rparr>"

definition resolve :: "conn_impl_t \<Rightarrow> conn_impl_t" where
  "resolve c =
     emit (Resolver_async_resolve (domain (uri (request (response c))))
                                  (port (uri (request (response c)))))
       (set_state RESOLVE c)"

text \<open>
  \<^verbatim>\<open>conn_impl_t::perform_redirect\<close>. The chain entry added is a copy of the response;
  \<^verbatim>\<open>std::move\<close> of the chain leaves the response's own chain empty before the copy.
\<close>

definition perform_redirect :: "externals \<Rightarrow> conn_impl_t \<Rightarrow> conn_impl_t" where
  "perform_redirect X c =
     (if is_redirect_exhausted (response c)
      then set_error X REDIRECT_EXHAUSTED ''redirect exhausted'' c
      else if headers_count X (resp_headers (response c)) ''Location'' = 0
      then set_error X REDIRECT_ERROR ''no Location.'' c
      else
        (let redirects0 = redirects (response c);
             redirects1 = (if redirects0 = []
                           then [response_core.truncate ((response c)\<lparr> redirects := [] \<rparr>)]
                           else redirects0);
             redirect_count' = resp_redirect_count (response c) + 1;
             request1 = (request (response c))
                          \<lparr> uri := uri_from_string X
                                     (headers_at X (resp_headers (response c)) ''Location'') \<rparr>;
             request2 = prepare X request1;
             response1 = (response_new X request2)
                           \<lparr> resp_redirect_count := redirect_count', redirects := redirects1 \<rparr>;
             response2 = response1\<lparr> redirects := redirects1 @ [response_core.truncate response1] \<rparr>;
             c1 = (emit (Uri_from_string
                            (headers_at X (resp_headers (response c)) ''Location'')) c)
                    \<lparr> response := response2, stream := stream_new,
                      request_buf := [], response_buf := [], parser := [] \<rparr>
         in resolve (prepare_parser c1)))"

definition set_success :: "externals \<Rightarrow> conn_impl_t \<Rightarrow> conn_impl_t" where
  "set_success X c =
     (if is_redirect_code (status_code (response c))
      then (if redirect (request (response c)) then perform_redirect X c else c)
      else (if \<not> in_final_state c
            then (let c1 = set_state SUCCESS c;
                      c2 = c1\<lparr> response := (response c1)
                                \<lparr> error := \<lparr> code = state c1, msg = ''success'' \<rparr> \<rparr> \<rparr>
                  in conn_end X c2)
            else c))"

definition set_timeout :: "externals \<Rightarrow> conn_impl_t \<Rightarrow> conn_impl_t" where
  "set_timeout X c =
     (if in_final_state c
      then (if \<not> keep_alive (request (response c))
            then (emit Stream_close c)\<lparr> stream := (stream c)\<lparr> is_open := False \<rparr> \<rparr>
            else c)
      else (let c1 = set_state TIMEOUT c;
                c2 = c1\<lparr> response := (response c1)
                          \<lparr> error := \<lparr> code = state c1, msg = ''timeout'' \<rparr> \<rparr> \<rparr>
            in conn_end X c2))"

definition set_dispose :: "conn_impl_t \<Rightarrow> conn_impl_t" where
  "set_dispose c = set_state EXPIRED c"

definition on_timeout :: "externals \<Rightarrow> ec_t \<Rightarrow> conn_impl_t \<Rightarrow> conn_impl_t" where
  "on_timeout X ec c = (if ec = No_error then set_timeout X c else c)"

definition on_dispose_timer :: "ec_t \<Rightarrow> conn_impl_t \<Rightarrow> conn_impl_t" where
  "on_dispose_timer ec c = (if ec = No_error then set_dispose c else c)"

section \<open>connection.cpp: the parser adapter\<close>

text \<open>
  The six callbacks bound in \<^verbatim>\<open>prepare_parser\<close>, applied to the events of one
  \<^verbatim>\<open>parser->execute\<close>. \<^verbatim>\<open>content_length = content_len\<close> converts a \<^verbatim>\<open>ssize_t\<close>
  to a \<^verbatim>\<open>size_t\<close> (64 bits).
\<close>

definition callback :: "externals \<Rightarrow> conn_impl_t \<Rightarrow> parser_event \<Rightarrow> conn_impl_t" where
  "callback X c ev =
     (case ev of
        Status at major minor status \<Rightarrow>
          c\<lparr> response := (response c)
                \<lparr> http_major := major, http_minor := minor, status_code := status,
                  status_message := at \<rparr> \<rparr>
      | Header_field at \<Rightarrow> c\<lparr> header_field := at \<rparr>
      | Header_value at \<Rightarrow>
          (let c1 = (if tolower X (header_field c) = ''set-cookie''
                     then (let cookie = (cookie_from_string X at)
                                 \<lparr> origin_domain := domain (uri (request (response c))),
                                   origin_path := path (uri (request (response c))) \<rparr>
                           in c\<lparr> response := (response c)
                                  \<lparr> resp_cookies :=
                                      cookies_t_add X (resp_cookies (response c)) cookie \<rparr> \<rparr>)
                     else c)
           in c1\<lparr> headers := headers_insert X (headers c1) (header_field c1) at,
                   header_field := [] \<rparr>)
      | Headers_complete content_len \<Rightarrow>
          c\<lparr> content_length := nat (content_len mod 2 ^ 64),
              response := (response c)\<lparr> resp_headers := headers c \<rparr>,
              headers := [] \<rparr>
      | Body at \<Rightarrow>
          (if body_callback (request (response c))
           then emit (Body_callback (Some at) (length at) (error_default X)) c
           else c\<lparr> raw := raw c @ at \<rparr>)
      | Chunk_header len \<Rightarrow> c\<lparr> content_length := len \<rparr>)"

text \<open>
  \<^verbatim>\<open>execute_parser\<close>: the parser runs on the readable bytes of the response buffer,
  \<^verbatim>\<open>response_buf.consume(nparsed)\<close> removes at most the whole buffer, and the
  result is \<^verbatim>\<open>nparsed > 0\<close>.
\<close>

definition execute_parser :: "externals \<Rightarrow> conn_impl_t \<Rightarrow> bool \<times> conn_impl_t" where
  "execute_parser X c =
     (let r = parser_execute X (parser c) (response_buf c);
          c1 = foldl (callback X) c (fst r);
          nparsed = snd r
      in (nparsed > 0,
          c1\<lparr> response_buf := drop nparsed (response_buf c1),
              parser := parser c1 @ [response_buf c] \<rparr>))"

section \<open>connection.cpp: the protocol phases\<close>

definition connect :: "conn_impl_t \<Rightarrow> conn_impl_t" where
  "connect c = emit Stream_async_connect (set_state CONNECT c)"

definition handshake :: "conn_impl_t \<Rightarrow> conn_impl_t" where
  "handshake c = emit Stream_async_handshake (set_state HANDSHAKE c)"

definition conn_write :: "externals \<Rightarrow> conn_impl_t \<Rightarrow> conn_impl_t" where
  "conn_write X c =
     (let c1 = c\<lparr> request_buf := request_buf c @ make_request X (request (response c)) \<rparr>;
          c2 = set_state WRITE c1
      in emit (Stream_async_write (request_buf c2)) c2)"

text \<open>
  \<^verbatim>\<open>start\<close> and \<^verbatim>\<open>restart\<close> call each other: \<^verbatim>\<open>start\<close> restarts a reused connection
  whose stream is closed, and \<^verbatim>\<open>restart\<close> clears the reused flag before it starts again.
\<close>

function start :: "externals \<Rightarrow> conn_impl_t \<Rightarrow> conn_impl_t"
  and restart :: "externals \<Rightarrow> conn_impl_t \<Rightarrow> conn_impl_t" where
  "start X c =
     (let c1 = prepare_parser c;
          c2 = (if is_reused c1
                then (if is_open (stream c1) then conn_write X c1 else restart X c1)
                else resolve c1)
      in setup_timeout c2)"
| "restart X c =
     (let c1 = emit Stream_cancel c;
          c2 = c1\<lparr> stream := stream_new, parser := [], m_is_reused := False \<rparr>
      in start X c2)"
  by pat_completeness auto
termination
  by (relation "measure (\<lambda>x. case x of
                    Inl (X, c) \<Rightarrow> (if m_is_reused c then 2 else 0)
                  | Inr (X, c) \<Rightarrow> 1)")
     (auto simp: is_reused_def prepare_parser_def)

declare start.simps [simp del] restart.simps [simp del]

definition on_resolve :: "externals \<Rightarrow> ec_t \<Rightarrow> conn_impl_t \<Rightarrow> conn_impl_t" where
  "on_resolve X ec c =
     (if ec \<noteq> No_error then set_error_ec X RESOLVE_ERROR ec c else connect c)"

definition on_connect :: "externals \<Rightarrow> ec_t \<Rightarrow> conn_impl_t \<Rightarrow> conn_impl_t" where
  "on_connect X ec c =
     (if ec \<noteq> No_error then set_error_ec X CONNECT_ERROR ec c
      else handshake (if keep_alive (request (response c))
                      then emit Stream_set_option_keep_alive c else c))"

definition on_handshake :: "externals \<Rightarrow> ec_t \<Rightarrow> conn_impl_t \<Rightarrow> conn_impl_t" where
  "on_handshake X ec c =
     (if ec \<noteq> No_error then set_error_ec X HANDSHAKE_ERROR ec c else conn_write X c)"

definition read_status :: "conn_impl_t \<Rightarrow> conn_impl_t" where
  "read_status c = emit (Stream_async_read_until [CR, LF]) (set_state READ_STATUS c)"

definition on_write :: "externals \<Rightarrow> ec_t \<Rightarrow> conn_impl_t \<Rightarrow> conn_impl_t" where
  "on_write X ec c =
     (if ec \<noteq> No_error
      then (if is_socket_closed ec \<and> is_reused c \<and> \<not> in_final_state c
            then restart X c
            else set_error_ec X WRITE_ERROR ec c)
      else read_status c)"

definition read_headers :: "conn_impl_t \<Rightarrow> conn_impl_t" where
  "read_headers c =
     emit (Stream_async_read_until [CR, LF, CR, LF]) (set_state READ_HEADERS c)"

definition on_read_status :: "externals \<Rightarrow> ec_t \<Rightarrow> conn_impl_t \<Rightarrow> conn_impl_t" where
  "on_read_status X ec c =
     (if ec \<noteq> No_error
      then (if is_socket_closed ec \<and> is_reused c \<and> \<not> in_final_state c
            then restart X c
            else set_error_ec X READ_STATUS_ERROR ec c)
      else (let r = execute_parser X c
            in if \<not> fst r
               then set_error X READ_STATUS_DATA_ERROR ''bad status data'' (snd r)
               else read_headers (snd r)))"

definition read_content_length :: "conn_impl_t \<Rightarrow> conn_impl_t" where
  "read_content_length c =
     (let c1 = set_state READ_CONTENT_LENGTH c;
          n = (if length (response_buf c1) > content_length c1 then 0
               else content_length c1 - length (response_buf c1))
      in emit (Stream_async_read n) c1)"

definition on_read_content_length :: "externals \<Rightarrow> ec_t \<Rightarrow> conn_impl_t \<Rightarrow> conn_impl_t" where
  "on_read_content_length X ec c =
     (if (ec \<noteq> No_error \<and> \<not> is_eof ec)
         \<or> (ec \<noteq> No_error \<and> is_eof ec \<and> length (response_buf c) < content_length c)
      then set_error_ec X READ_CONTENT_LENGTH_ERROR ec c
      else (let r = execute_parser X c
            in if \<not> fst r
               then set_error X READ_CONTENT_LENGTH_ERROR ''bad content length'' (snd r)
               else set_success X (snd r)))"

text \<open>
  \<^verbatim>\<open>read_chunk_data\<close> asks for \<^verbatim>\<open>content_length - response_buf.size()\<close> bytes, a
  subtraction of \<^verbatim>\<open>size_t\<close> values that wraps around when the buffer is the longer.
\<close>

definition read_chunk_data :: "conn_impl_t \<Rightarrow> conn_impl_t" where
  "read_chunk_data c =
     (let c1 = set_state READ_CHUNK_DATA c
      in emit (Stream_async_read
                 (nat ((int (content_length c1) - int (length (response_buf c1))) mod 2 ^ 64)))
           c1)"

text \<open>
  Chunked bodies. \<^verbatim>\<open>read_chunk_header\<close> completes at once when the buffer already
  holds a CRLF, \<^verbatim>\<open>on_read_chunk_header\<close> completes the chunk data at once when the
  buffer is longer than the chunk, and \<^verbatim>\<open>on_read_chunk_data\<close> goes back to
  \<^verbatim>\<open>read_chunk_header\<close>: a loop over the buffered bytes. \<^verbatim>\<open>reserve\<close> on the raw
  body changes no value and is left out.
\<close>

lemma execute_parser_buf_le:
  "length (response_buf (snd (execute_parser X c))) \<le> length (response_buf c)"
proof -
  have "response_buf (foldl (callback X) c evs) = response_buf c" for evs
    by (induction evs arbitrary: c)
       (auto simp: callback_def emit_def Let_def split: parser_event.splits)
  then show ?thesis by (simp add: execute_parser_def Let_def)
qed

lemma execute_parser_buf_less:
  "fst (execute_parser X c) \<Longrightarrow> response_buf (snd (execute_parser X c)) \<noteq> [] \<Longrightarrow>
     length (response_buf (snd (execute_parser X c))) < length (response_buf c)"
proof -
  have "response_buf (foldl (callback X) c evs) = response_buf c" for evs
    by (induction evs arbitrary: c)
       (auto simp: callback_def emit_def Let_def split: parser_event.splits)
  then show "fst (execute_parser X c) \<Longrightarrow> response_buf (snd (execute_parser X c)) \<noteq> [] \<Longrightarrow>
     length (response_buf (snd (execute_parser X c))) < length (response_buf c)"
    by (auto simp: execute_parser_def Let_def)
qed

lemma set_state_response_buf: "response_buf (set_state s c) = response_buf c"
  by (simp add: set_state_def)

function read_chunk_header :: "externals \<Rightarrow> conn_impl_t \<Rightarrow> conn_impl_t"
  and on_read_chunk_header :: "externals \<Rightarrow> ec_t \<Rightarrow> conn_impl_t \<Rightarrow> conn_impl_t"
  and on_read_chunk_data :: "externals \<Rightarrow> ec_t \<Rightarrow> conn_impl_t \<Rightarrow> conn_impl_t" where
  "read_chunk_header X c =
     (let c1 = set_state READ_CHUNK_HEADER c
      in if peek_crlf (response_buf c1) \<noteq> None
         then on_read_chunk_header X No_error c1
         else emit (Stream_async_read_until [CR, LF]) c1)"
| "on_read_chunk_header X ec c =
     (if ec \<noteq> No_error
      then (if \<not> is_eof ec then set_error_ec X READ_CHUNK_HEADER_ERROR ec c
            else set_success X c)
      else (let r = execute_parser X c
            in if \<not> fst r
               then set_error X READ_CHUNK_HEADER_ERROR ''bad chunk header'' (snd r)
               else if content_length (snd r) > 0
               then (if length (response_buf (snd r)) > content_length (snd r)
                     then on_read_chunk_data X No_error (set_state READ_CHUNK_DATA (snd r))
                     else read_chunk_data (snd r))
               else set_success X (snd r)))"
| "on_read_chunk_data X ec c =
     (if ec \<noteq> No_error \<and> \<not> is_eof ec
      then set_error_ec X READ_CHUNK_DATA_ERROR ec c
      else if ec \<noteq> No_error \<and> is_eof ec \<and> length (response_buf c) < content_length c
      then set_error_ec X READ_CHUNK_DATA_ERROR ec c
      else (let r = execute_parser X c
            in if \<not> fst r
               then set_error X READ_CHUNK_DATA_ERROR ''chunk data error'' (snd r)
               else read_chunk_header X (snd r)))"
  by pat_completeness auto
termination
proof (relation "measure (\<lambda>x. case x of
                    Inl (X, c) \<Rightarrow> 3 * length (response_buf c) + 1
                  | Inr (Inl (X, ec, c)) \<Rightarrow> 3 * length (response_buf c)
                  | Inr (Inr (X, ec, c)) \<Rightarrow> 3 * length (response_buf c) + 2)",
       goal_cases)
  case 1
  show ?case by simp
next
  case (2 X c c1)
  then show ?case by (simp add: set_state_response_buf)
next
  case (3 X ec c r)
  then have "response_buf (snd (execute_parser X c)) \<noteq> []" by auto
  with 3 have "length (response_buf (snd (execute_parser X c))) < length (response_buf c)"
    using execute_parser_buf_less [of X c] by simp
  with 3 show ?case by (simp add: set_state_response_buf)
next
  case (4 X ec c r)
  then show ?case using execute_parser_buf_le [of X c] by simp
qed

declare read_chunk_header.simps [simp del] on_read_chunk_header.simps [simp del]
  on_read_chunk_data.simps [simp del]

definition read_until_eof :: "conn_impl_t \<Rightarrow> conn_impl_t" where
  "read_until_eof c = emit (Stream_async_read 1) (set_state READ_UNTIL_EOF c)"

definition on_read_until_eof :: "externals \<Rightarrow> ec_t \<Rightarrow> conn_impl_t \<Rightarrow> conn_impl_t" where
  "on_read_until_eof X ec c =
     (if ec \<noteq> No_error
      then (if \<not> is_eof ec then set_error_ec X READ_UNTIL_EOF_ERROR ec c
            else (let r = execute_parser X c
                  in if \<not> fst r
                     then set_error X READ_UNTIL_EOF_ERROR ''until eof error'' (snd r)
                     else set_success X (snd r)))
      else read_until_eof c)"

definition read_content :: "externals \<Rightarrow> conn_impl_t \<Rightarrow> conn_impl_t" where
  "read_content X c =
     (if headers_count X (resp_headers (response c)) ''Content-Length'' \<noteq> 0
      then read_content_length c
      else if headers_contains X (resp_headers (response c)) ''Transfer-Encoding'' ''chunked''
      then read_chunk_header X c
      else read_until_eof c)"

text \<open>
  \<^verbatim>\<open>on_read_headers\<close>: the \<^verbatim>\<open>"no headers"\<close> error does not return, the parser
  runs after it.
\<close>

definition on_read_headers :: "externals \<Rightarrow> ec_t \<Rightarrow> conn_impl_t \<Rightarrow> conn_impl_t" where
  "on_read_headers X ec c =
     (if ec \<noteq> No_error \<and> \<not> is_eof ec
      then set_error_ec X READ_HEADERS_ERROR ec c
      else (let c1 = (if length (response_buf c) = 0
                      then set_error X READ_HEADERS_ERROR ''no headers'' c else c);
                r = execute_parser X c1
            in if \<not> fst r
               then set_error X READ_HEADERS_ERROR ''bad headers data'' (snd r)
               else read_content X (snd r)))"

section \<open>connection.cpp: completions delivered by the reactor\<close>

text \<open>
  Every asynchronous operation ends with the reactor calling the handler the connection
  passed to it. A read has put the bytes received into the response buffer before its
  handler runs, a successful connect has opened the stream, a successful write has
  consumed the request buffer.
\<close>

datatype event =
    Ev_resolve ec_t
  | Ev_connect ec_t
  | Ev_handshake ec_t
  | Ev_write ec_t
  | Ev_read_status ec_t string
  | Ev_read_headers ec_t string
  | Ev_read_content_length ec_t string
  | Ev_read_chunk_header ec_t string
  | Ev_read_chunk_data ec_t string
  | Ev_read_until_eof ec_t string
  | Ev_timeout ec_t
  | Ev_dispose_timer ec_t

definition received :: "string \<Rightarrow> conn_impl_t \<Rightarrow> conn_impl_t" where
  "received bytes c = c\<lparr> response_buf := response_buf c @ bytes \<rparr>"

fun fire :: "externals \<Rightarrow> event \<Rightarrow> conn_impl_t \<Rightarrow> conn_impl_t" where
  "fire X (Ev_resolve ec) c = on_resolve X ec c"
| "fire X (Ev_connect ec) c =
     on_connect X ec (if ec = No_error then c\<lparr> stream := (stream c)\<lparr> is_open := True \<rparr> \<rparr> else c)"
| "fire X (Ev_handshake ec) c = on_handshake X ec c"
| "fire X (Ev_write ec) c =
     on_write X ec (if ec = No_error then c\<lparr> request_buf := [] \<rparr> else c)"
| "fire X (Ev_read_status ec bytes) c = on_read_status X ec (received bytes c)"
| "fire X (Ev_read_headers ec bytes) c = on_read_headers X ec (received bytes c)"
| "fire X (Ev_read_content_length ec bytes) c = on_read_content_length X ec (received bytes c)"
| "fire X (Ev_read_chunk_header ec bytes) c = on_read_chunk_header X ec (received bytes c)"
| "fire X (Ev_read_chunk_data ec bytes) c = on_read_chunk_data X ec (received bytes c)"
| "fire X (Ev_read_until_eof ec bytes) c = on_read_until_eof X ec (received bytes c)"
| "fire X (Ev_timeout ec) c = on_timeout X ec c"
| "fire X (Ev_dispose_timer ec) c = on_dispose_timer ec c"

text \<open>
  The reactor calls the dispose timer's handler only after \<^verbatim>\<open>async_wait\<close> was called
  on that timer. The other completions are not constrained: any of them may arrive in any
  state, which only adds behaviours to the ones the reactor can produce.
\<close>

fun is_dispose_wait :: "effect \<Rightarrow> bool" where
  "is_dispose_wait (Dispose_timer_async_wait n) = True"
| "is_dispose_wait e = False"

fun is_promise_set :: "effect \<Rightarrow> bool" where
  "is_promise_set (Promise_set_value r) = True"
| "is_promise_set (Promise_set_exception e) = True"
| "is_promise_set e = False"

fun enabled :: "event \<Rightarrow> conn_impl_t \<Rightarrow> bool" where
  "enabled (Ev_dispose_timer ec) c = list_ex is_dispose_wait (effects c)"
| "enabled e c = True"

text \<open>
  A run: the completions of a list delivered in order; \<open>None\<close> when one of them is not
  enabled where it stands.
\<close>

fun run :: "externals \<Rightarrow> event list \<Rightarrow> conn_impl_t \<Rightarrow> conn_impl_t option" where
  "run X [] c = Some c"
| "run X (e # es) c = (if enabled e c then run X es (fire X e c) else None)"

text \<open>
  The finalization marks of a log: its dispose-timer waits and promise fulfilments, in
  order (\<open>False\<close> for a wait, \<open>True\<close> for a fulfilment).
\<close>

definition marks :: "effect list \<Rightarrow> bool list" where
  "marks es = map is_promise_set (filter (\<lambda>e. is_dispose_wait e \<or> is_promise_set e) es)"

section \<open>session.cpp: Send\<close>

definition can_reuse_connection :: "request_t \<Rightarrow> request_t \<Rightarrow> bool" where
  "can_reuse_connection rq last_request \<longleftrightarrow>
     domain (uri last_request) = domain (uri rq) \<and>
     port (uri last_request) = port (uri rq) \<and>
     protocol (uri last_request) = protocol (uri rq)"

record session_impl_t =
  session_request :: request_t
  connection :: "conn_impl_t option"

text \<open>
  \<^verbatim>\<open>connection->get().get()\<close> reads the future of the previous connection: it waits
  while the promise is pending, and rethrows when the promise holds an exception.
\<close>

datatype send_error = Future_pending | Future_exception error_t

definition future_get :: "conn_impl_t \<Rightarrow> send_error + response_t" where
  "future_get c =
     (case promise c of
        None \<Rightarrow> Inl Future_pending
      | Some (Exception e) \<Rightarrow> Inl (Future_exception e)
      | Some (Value r) \<Rightarrow> Inr r)"

definition skip_redirects :: "externals \<Rightarrow> response_t \<Rightarrow> session_impl_t \<Rightarrow> session_impl_t" where
  "skip_redirects X resp s =
     (case redirects_find X (redirects resp) (session_request s) of
        Some r \<Rightarrow>
          s\<lparr> session_request :=
               prepare X ((session_request s)
                 \<lparr> uri := uri (request r), auth := auth (request r),
                   cookies := cookies (request r) \<rparr>) \<rparr>
      | None \<Rightarrow> s)"

text \<open>
  \<^verbatim>\<open>session_impl_t::Send\<close> up to and including the construction of the connection
  (\<open>Send_construct\<close>), and the whole of it, which starts the connection constructed.
\<close>

definition Send_construct :: "externals \<Rightarrow> session_impl_t \<Rightarrow> send_error + session_impl_t" where
  "Send_construct X s =
     (case connection s of
        None \<Rightarrow>
          (let s1 = s\<lparr> session_request := prepare X (session_request s) \<rparr>
           in Inr (s1\<lparr> connection := Some (conn_new X (session_request s1)) \<rparr>))
      | Some conn \<Rightarrow>
          (case future_get conn of
             Inl e \<Rightarrow> Inl e
           | Inr prev \<Rightarrow>
               (let s1 = (if cache_redirects (session_request s)
                          then skip_redirects X prev s
                          else s\<lparr> session_request := prepare X (session_request s) \<rparr>)
                in if \<not> can_reuse_connection (session_request s1) (request prev)
                   then Inr (s1\<lparr> connection := Some (conn_new X (session_request s1)) \<rparr>)
                   else
                     (let cookies' = cookies_t_update X (cookies (session_request s1))
                                       (resp_cookies prev);
                          s2 = s1\<lparr> session_request :=
                                    (session_request s1)\<lparr> cookies := cookies' \<rparr> \<rparr>
                      in Inr (s2\<lparr> connection :=
                                   Some (conn_reuse X (session_request s2) conn prev) \<rparr>)))))"

definition Send :: "externals \<Rightarrow> session_impl_t \<Rightarrow> send_error + session_impl_t" where
  "Send X s =
     (case Send_construct X s of
        Inl e \<Rightarrow> Inl e
      | Inr s1 \<Rightarrow> Inr (s1\<lparr> connection := map_option (start X) (connection s1) \<rparr>))"

section \<open>Example collaborators and connections for the closed instances\<close>

text \<open>
  A small parser: it parses nothing from an empty buffer, reads the chunk header
  \<^verbatim>\<open>3 CR LF\<close>, and takes anything else as body. In the example collaborators,
  \<^verbatim>\<open>prepare\<close> changes nothing, headers and cookies are lists, every transport error
  has the same message, and an error is present (\<open>error_bool\<close>) when its code is neither
  \<open>SUCCESS\<close> nor the one of a default-constructed error.
\<close>

definition example_parser :: "string list \<Rightarrow> string \<Rightarrow> parser_event list \<times> nat" where
  "example_parser hist buf =
     (if buf = [] then ([], 0)
      else if take 3 buf = [CHR ''3'', CR, LF] then ([Chunk_header 3], 3)
      else ([Body buf], length buf))"

definition example_uri :: "string \<Rightarrow> uri_t" where
  "example_uri d = \<lparr> protocol = ''http'', domain = d, port = ''80'', path = ''/'', query = [] \<rparr>"

definition example_externals :: externals where
  "example_externals =
     \<lparr> parser_execute = example_parser,
       make_request = (\<lambda>rq. ''GET '' @ path (uri rq) @ '' HTTP/1.1'' @ [CR, LF, CR, LF]),
       prepare = (\<lambda>rq. rq),
       uri_from_string = example_uri,
       cookie_from_string = (\<lambda>s. \<lparr> cookie_text = s, origin_domain = [], origin_path = [] \<rparr>),
       cookies_t_add = (\<lambda>cs c. cs @ [c]),
       cookies_t_update = (\<lambda>cs ds. cs @ ds),
       headers_count = (\<lambda>h k. length (filter (\<lambda>kv. fst kv = k) h)),
       headers_contains = (\<lambda>h k v. List.member h (k, v)),
       headers_at = (\<lambda>h k. case map_of h k of Some v \<Rightarrow> v | None \<Rightarrow> []),
       headers_insert = (\<lambda>h k v. h @ [(k, v)]),
       tolower = (\<lambda>s. s),
       ec_message = (\<lambda>ec. ''transport error''),
       error_bool = (\<lambda>e. code e \<noteq> SUCCESS \<and> code e \<noteq> INIT),
       error_default = \<lparr> code = INIT, msg = [] \<rparr>,
       redirects_find = (\<lambda>rs rq. None) \<rparr>"

definition example_request :: request_t where
  "example_request =
     \<lparr> uri = example_uri ''host'', auth = \<lparr> login = ''u'', password = ''p'' \<rparr>,
       redirect = False, redirect_count = 0, keep_alive = False, cache_redirects = False,
       throw_on_error = False, timeout = 1, store_timeout = 1, body_callback = False,
       final_callback = False, cookies = [] \<rparr>"

text \<open>A fresh connection for \<open>example_request\<close>, put in a given state.\<close>

definition example_conn :: "error_code_t \<Rightarrow> conn_impl_t" where
  "example_conn st = (conn_new example_externals example_request)\<lparr> state := st \<rparr>"

text \<open>The same in \<open>READ_CONTENT_LENGTH\<close> with the status 301 (redirects are off).\<close>

definition example_conn_301 :: conn_impl_t where
  "example_conn_301 =
     (example_conn READ_CONTENT_LENGTH)
       \<lparr> response := (response (example_conn READ_CONTENT_LENGTH))\<lparr> status_code := 301 \<rparr> \<rparr>"

text \<open>
  A connection in \<open>READ_CONTENT_LENGTH\<close> with redirects on, a redirect cap, the status 301
  and given response headers.
\<close>

definition example_redirect_conn :: "nat \<Rightarrow> headers_t \<Rightarrow> conn_impl_t" where
  "example_redirect_conn cap hs =
     (let c = conn_new example_externals
                (example_request\<lparr> redirect := True, redirect_count := cap \<rparr>)
      in c\<lparr> state := READ_CONTENT_LENGTH,
             response := (response c)\<lparr> status_code := 301, resp_headers := hs \<rparr> \<rparr>)"

text \<open>Connections reading a body: given buffered bytes and content length.\<close>

definition example_body_conn :: "string \<Rightarrow> nat \<Rightarrow> conn_impl_t" where
  "example_body_conn buf n =
     (example_conn READ_CONTENT_LENGTH)\<lparr> response_buf := buf, content_length := n \<rparr>"

definition example_chunk_conn :: "string \<Rightarrow> conn_impl_t" where
  "example_chunk_conn buf = (example_conn READ_CHUNK_HEADER)\<lparr> response_buf := buf \<rparr>"

text \<open>
  A started connection; the same after its resolution failed; after its timeout timer
  fired; and the one for a request with \<^verbatim>\<open>throw_on_error\<close> after its resolution failed.
\<close>

definition example_started :: conn_impl_t where
  "example_started = start example_externals (conn_new example_externals example_request)"

definition example_failed :: conn_impl_t where
  "example_failed = fire example_externals (Ev_resolve (Other_ec 1)) example_started"

definition example_timed_out :: conn_impl_t where
  "example_timed_out = fire example_externals (Ev_timeout No_error) example_started"

definition example_thrown :: conn_impl_t where
  "example_thrown =
     fire example_externals (Ev_resolve (Other_ec 1))
       (start example_externals
          (conn_new example_externals (example_request\<lparr> throw_on_error := True \<rparr>)))"

text \<open>
  A connection that reuses a previous one whose stream is open, started (it is writing);
  and the same after a restart and a successful resolution.
\<close>

definition example_reused_started :: conn_impl_t where
  "example_reused_started =
     start example_externals
       (conn_reuse example_externals example_request
          (example_failed\<lparr> stream := \<lparr> is_open = True \<rparr> \<rparr>) (response example_failed))"

definition example_restarted :: conn_impl_t where
  "example_restarted =
     fire example_externals (Ev_resolve No_error)
       (restart example_externals example_reused_started)"

text \<open>
  A parser for a redirecting server: a status line gives the status 301, a header block
  that starts with \<^verbatim>\<open>Location:\<close> gives the headers \<^verbatim>\<open>Location: other\<close> and
  \<^verbatim>\<open>Content-Length: 5\<close>, anything else is body. \<open>example_redirect_events\<close> is one
  exchange with this server, from the resolution to the last byte of the body, and
  \<open>example_redirect_run cap es\<close> the connection for a request with redirects on and the
  cap \<open>cap\<close>, started and taken through the completions \<open>es\<close>.
\<close>

definition example_redirect_parser :: "string list \<Rightarrow> string \<Rightarrow> parser_event list \<times> nat" where
  "example_redirect_parser hist buf =
     (if buf = [] then ([], 0)
      else if take 4 buf = ''HTTP''
      then ([Status ''Moved Permanently'' 1 1 301], length buf)
      else if take 9 buf = ''Location:''
      then ([Header_field ''Location'', Header_value ''other'',
             Header_field ''Content-Length'', Header_value ''5'', Headers_complete 5],
            length buf)
      else ([Body buf], length buf))"

definition example_redirect_externals :: externals where
  "example_redirect_externals =
     example_externals\<lparr> parser_execute := example_redirect_parser \<rparr>"

definition example_redirect_events :: "event list" where
  "example_redirect_events =
     [Ev_resolve No_error, Ev_connect No_error, Ev_handshake No_error, Ev_write No_error,
      Ev_read_status No_error (''HTTP/1.1 301 Moved Permanently'' @ [CR, LF]),
      Ev_read_headers No_error
        (''Location: other'' @ [CR, LF] @ ''Content-Length: 5'' @ [CR, LF, CR, LF]),
      Ev_read_content_length No_error ''moved'']"

definition example_redirect_run :: "nat \<Rightarrow> event list \<Rightarrow> conn_impl_t" where
  "example_redirect_run cap es =
     the (run example_redirect_externals es
            (start example_redirect_externals
               (conn_new example_redirect_externals
                  (example_request\<lparr> redirect := True, redirect_count := cap \<rparr>))))"

text \<open>
  A session whose request goes to a given domain, with a given previous connection; and
  the session that \<^verbatim>\<open>Send\<close> returns for it.
\<close>

definition example_session :: "string \<Rightarrow> conn_impl_t option \<Rightarrow> session_impl_t" where
  "example_session d conn =
     \<lparr> session_request = example_request\<lparr> uri := example_uri d \<rparr>, connection = conn \<rparr>"

definition example_sent :: "string \<Rightarrow> conn_impl_t option \<Rightarrow> session_impl_t" where
  "example_sent d conn = projr (Send example_externals (example_session d conn))"

section \<open>Invariants and vocabulary of the properties\<close>

text \<open>
  \<open>lifecycle t c\<close>: the state is not \<open>EXPIRED\<close>; the log holds one dispose-timer wait
  followed by one promise fulfilment when the state is final, and neither of them when
  it is not; the promise is pending exactly when the state is not final. With
  \<open>t = Some s\<close> it says in addition that the state is the final state \<open>s\<close>.
\<close>

definition lifecycle :: "error_code_t option \<Rightarrow> conn_impl_t \<Rightarrow> bool" where
  "lifecycle t c \<longleftrightarrow>
     state c \<noteq> EXPIRED \<and>
     marks (effects c) = (if in_final_state c then [False, True] else []) \<and>
     (promise c = None \<longleftrightarrow> \<not> in_final_state c) \<and>
     (t = None \<or> (t = Some (state c) \<and> in_final_state c))"

text \<open>
  The number of redirects a connection has followed: the calls of
  \<^verbatim>\<open>uri_t::from_string\<close> on a \<^verbatim>\<open>Location\<close> header in its log.
\<close>

fun is_uri_from_string :: "effect \<Rightarrow> bool" where
  "is_uri_from_string (Uri_from_string l) = True"
| "is_uri_from_string e = False"

definition redirects_followed :: "effect list \<Rightarrow> nat" where
  "redirects_followed es = length (filter is_uri_from_string es)"

text \<open>
  \<open>within cap c\<close>: the request of the current response has the redirect cap \<open>cap\<close>,
  the response's redirect counter has not passed it, and the counter is the number of
  redirects followed.
\<close>

definition within :: "nat \<Rightarrow> conn_impl_t \<Rightarrow> bool" where
  "within cap c \<longleftrightarrow>
     redirect_count (request (response c)) = cap \<and> resp_redirect_count (response c) \<le> cap
     \<and> redirects_followed (effects c) = resp_redirect_count (response c)"

text \<open>
  The number of steps of a run that take the connection from a state that is not final
  into a final state.
\<close>

fun terminal_transitions :: "externals \<Rightarrow> event list \<Rightarrow> conn_impl_t \<Rightarrow> nat" where
  "terminal_transitions X [] c = 0"
| "terminal_transitions X (e # es) c =
     (if \<not> in_final_state c \<and> in_final_state (fire X e c) then 1 else 0)
       + terminal_transitions X es (fire X e c)"

text \<open>
  A log in which some dispose-timer wait comes after the first promise fulfilment.
\<close>

definition fulfilled_before_armed :: "effect list \<Rightarrow> bool" where
  "fulfilled_before_armed es \<longleftrightarrow>
     list_ex is_dispose_wait (dropWhile (\<lambda>e. \<not> is_promise_set e) es)"

text \<open>
  The session's request after the first statement of \<^verbatim>\<open>Send\<close>, when there is a previous
  connection whose response is \<open>prev\<close>.
\<close>

definition send_request :: "externals \<Rightarrow> session_impl_t \<Rightarrow> response_t \<Rightarrow> request_t" where
  "send_request X s prev =
     (if cache_redirects (session_request s) then session_request (skip_redirects X prev s)
      else prepare X (session_request s))"

text \<open>\<^verbatim>\<open>prepare\<close> leaves the redirect cap of a request as it is.\<close>

definition prepare_keeps_cap :: "externals \<Rightarrow> bool" where
  "prepare_keeps_cap X \<longleftrightarrow> (\<forall>rq. redirect_count (prepare X rq) = redirect_count rq)"

section \<open>Properties of the auth literal\<close>

lemma str_find_None: "str_find s ch = None \<longleftrightarrow> ch \<notin> set s"
  by (induction s) (auto split: option.splits)

lemma str_find_Some:
  "str_find s ch = Some i \<Longrightarrow>
     i < length s \<and> s ! i = ch \<and> ch \<notin> set (take i s) \<and> s = take i s @ ch # drop (Suc i) s"
proof (induction s arbitrary: i)
  case Nil
  then show ?case by simp
next
  case (Cons x xs)
  show ?case
  proof (cases "x = ch")
    case True
    with Cons.prems show ?thesis by simp
  next
    case False
    with Cons.prems obtain j where j: "str_find xs ch = Some j" "i = Suc j"
      by (auto split: option.splits)
    from Cons.IH [OF j(1)] False j(2) show ?thesis by simp
  qed
qed

lemma str_find_append_fresh:
  "ch \<notin> set l \<Longrightarrow> str_find (l @ ch # p) ch = Some (length l)"
  by (induction l) auto

lemma from_string_to_string:
  "from_string s = Inr a \<Longrightarrow> to_string a = s"
proof -
  assume h: "from_string s = Inr a"
  then obtain i where i: "str_find s (CHR '':'') = Some i"
    by (auto simp: from_string_def split: option.splits)
  with h have a: "a = \<lparr> login = take i s, password = drop (Suc i) s \<rparr>"
    by (simp add: from_string_def substr_to_def substr_from_def)
  from str_find_Some [OF i] have "s = take i s @ CHR '':'' # drop (Suc i) s" by simp
  with a show "to_string a = s" by (simp add: to_string_def)
qed

lemma from_string_login_no_colon:
  "from_string s = Inr a \<Longrightarrow> CHR '':'' \<notin> set (login a)"
proof -
  assume h: "from_string s = Inr a"
  then obtain i where i: "str_find s (CHR '':'') = Some i"
    by (auto simp: from_string_def split: option.splits)
  with h have "login a = take i s"
    by (auto simp: from_string_def substr_to_def)
  with str_find_Some [OF i] show ?thesis by simp
qed

lemma to_string_from_string:
  "CHR '':'' \<notin> set (login a) \<Longrightarrow> from_string (to_string a) = Inr a"
  by (simp add: from_string_def to_string_def str_find_append_fresh
      substr_to_def substr_from_def)

text \<open>
  C9. \<^verbatim>\<open>from_string\<close> splits at the first colon: \<^verbatim>\<open>"u:p"\<close> prints back as
  \<^verbatim>\<open>"u:p"\<close>, \<^verbatim>\<open>"a:b:c"\<close> has login \<^verbatim>\<open>"a"\<close> and password \<^verbatim>\<open>"b:c"\<close>, every string
  with a colon parses (login the text before the first colon, password the text after it),
  a string with no colon is the runtime error, and for every value \<open>a\<close> that
  \<^verbatim>\<open>from_string\<close> returns, \<^verbatim>\<open>to_string\<close> gives back the parsed string and parsing
  \<^verbatim>\<open>to_string a\<close> gives back \<open>a\<close>.
\<close>

theorem auth_from_string_roundtrip:
  "(\<exists>a. from_string ''u:p'' = Inr a \<and> to_string a = ''u:p'')
   \<and> from_string ''a:b:c'' = Inr \<lparr> login = ''a'', password = ''b:c'' \<rparr>
   \<and> (from_string (l @ '':'' @ p) = Inr a
        \<longrightarrow> CHR '':'' \<notin> set (login a) \<and> l @ '':'' @ p = login a @ '':'' @ password a
          \<and> (CHR '':'' \<notin> set l \<longrightarrow> login a = l \<and> password a = p))
   \<and> (CHR '':'' \<in> set s \<longleftrightarrow> (\<exists>a. from_string s = Inr a))
   \<and> (from_string s = Inr a
        \<longrightarrow> to_string a = s \<and> from_string (to_string a) = Inr a)"
proof (intro conjI impI)
  show "\<exists>a. from_string ''u:p'' = Inr a \<and> to_string a = ''u:p''"
    by (simp add: from_string_def to_string_def substr_to_def substr_from_def)
  show "from_string ''a:b:c'' = Inr \<lparr> login = ''a'', password = ''b:c'' \<rparr>"
    by (simp add: from_string_def substr_to_def substr_from_def)
  show "(CHR '':'' \<in> set s) = (\<exists>a. from_string s = Inr a)"
    using str_find_None [of s "CHR '':''"]
    by (auto simp: from_string_def split: option.splits)
next
  assume h: "from_string (l @ '':'' @ p) = Inr a"
  show "CHR '':'' \<notin> set (login a)" using from_string_login_no_colon [OF h] .
  show "l @ '':'' @ p = login a @ '':'' @ password a"
    using from_string_to_string [OF h] by (simp add: to_string_def)
next
  assume h: "from_string (l @ '':'' @ p) = Inr a" and l: "CHR '':'' \<notin> set l"
  from l have "from_string (l @ '':'' @ p) = Inr \<lparr> login = l, password = p \<rparr>"
    by (simp add: from_string_def str_find_append_fresh substr_to_def substr_from_def)
  with h show "login a = l" and "password a = p" by auto
next
  assume h: "from_string s = Inr a"
  show "to_string a = s" using from_string_to_string [OF h] .
  show "from_string (to_string a) = Inr a"
    using to_string_from_string [OF from_string_login_no_colon [OF h]] .
qed

theorem auth_from_string_roundtrip_witness:
  "from_string ''a:b:c'' = Inr \<lparr> login = ''a'', password = ''b:c'' \<rparr>
   \<and> to_string \<lparr> login = ''a'', password = ''b:c'' \<rparr> = ''a:b:c''
   \<and> from_string (to_string \<lparr> login = ''a'', password = ''b:c'' \<rparr>)
       = Inr \<lparr> login = ''a'', password = ''b:c'' \<rparr>
   \<and> CHR '':'' \<in> set ''a:b:c''"
  using auth_from_string_roundtrip
    [of "''a''" "''b:c''" "\<lparr> login = ''a'', password = ''b:c'' \<rparr>" "''a:b:c''"]
  by (simp add: from_string_def substr_to_def substr_from_def)

section \<open>Properties of the connection\<close>

subsection \<open>Final states, the log and the promise\<close>

lemma in_final_state_cong: "state c' = state c \<Longrightarrow> in_final_state c' = in_final_state c"
  by (simp add: in_final_state_def)

lemma emit_simps [simp]:
  "state (emit e c) = state c"
  "effects (emit e c) = effects c @ [e]"
  "promise (emit e c) = promise c"
  "response (emit e c) = response c"
  "m_is_reused (emit e c) = m_is_reused c"
  "response_buf (emit e c) = response_buf c"
  "content_length (emit e c) = content_length c"
  "stream (emit e c) = stream c"
  "raw (emit e c) = raw c"
  by (simp_all add: emit_def)

lemma in_final_state_emit [simp]: "in_final_state (emit e c) = in_final_state c"
  by (rule in_final_state_cong) simp

lemma in_final_state_upd [simp]:
  "in_final_state (c\<lparr> stream := a1 \<rparr>) = in_final_state c"
  "in_final_state (c\<lparr> promise := a2 \<rparr>) = in_final_state c"
  "in_final_state (c\<lparr> response := a3 \<rparr>) = in_final_state c"
  "in_final_state (c\<lparr> m_is_reused := a4 \<rparr>) = in_final_state c"
  "in_final_state (c\<lparr> request_buf := a5 \<rparr>) = in_final_state c"
  "in_final_state (c\<lparr> response_buf := a6 \<rparr>) = in_final_state c"
  "in_final_state (c\<lparr> parser := a7 \<rparr>) = in_final_state c"
  "in_final_state (c\<lparr> header_field := a8 \<rparr>) = in_final_state c"
  "in_final_state (c\<lparr> content_length := a9 \<rparr>) = in_final_state c"
  "in_final_state (c\<lparr> raw := a10 \<rparr>) = in_final_state c"
  "in_final_state (c\<lparr> headers := a11 \<rparr>) = in_final_state c"
  "in_final_state (c\<lparr> effects := a12 \<rparr>) = in_final_state c"
  by (simp_all add: in_final_state_def)

lemma set_state_simps [simp]:
  "effects (set_state s c) = effects c"
  "promise (set_state s c) = promise c"
  "response (set_state s c) = response c"
  "m_is_reused (set_state s c) = m_is_reused c"
  "response_buf (set_state s c) = response_buf c"
  "content_length (set_state s c) = content_length c"
  "stream (set_state s c) = stream c"
  "raw (set_state s c) = raw c"
  "request_buf (set_state s c) = request_buf c"
  by (simp_all add: set_state_def)

lemma state_set_state:
  "state (set_state s c) = (if \<not> in_final_state c \<or> state c = EXPIRED then s else state c)"
  by (simp add: set_state_def)

lemma marks_simps [simp]:
  "marks [] = []"
  "marks (es @ fs) = marks es @ marks fs"
  "marks (e # es) =
     (if is_dispose_wait e \<or> is_promise_set e then [is_promise_set e] else []) @ marks es"
  by (simp_all add: marks_def)

lemma end_stage_state [simp]:
  "state (end_cancel c) = state c"
  "state (end_final_callback c) = state c"
  "state (setup_dispose_timer c) = state c"
  "state (end_stream X c) = state c"
  "state (end_raw c) = state c"
  "state (end_body_callback c) = state c"
  "state (end_promise X c) = state c"
  by (simp_all add: end_cancel_def end_final_callback_def setup_dispose_timer_def
        end_stream_def end_raw_def end_body_callback_def end_promise_def promise_set_def)

lemma end_stage_reused [simp]:
  "m_is_reused (end_cancel c) = m_is_reused c"
  "m_is_reused (end_final_callback c) = m_is_reused c"
  "m_is_reused (setup_dispose_timer c) = m_is_reused c"
  "m_is_reused (end_stream X c) = m_is_reused c"
  "m_is_reused (end_raw c) = m_is_reused c"
  "m_is_reused (end_body_callback c) = m_is_reused c"
  "m_is_reused (end_promise X c) = m_is_reused c"
  by (simp_all add: end_cancel_def end_final_callback_def setup_dispose_timer_def
        end_stream_def end_raw_def end_body_callback_def end_promise_def promise_set_def)

lemma end_stage_marks [simp]:
  "marks (effects (end_cancel c)) = marks (effects c)"
  "marks (effects (end_final_callback c)) = marks (effects c)"
  "marks (effects (setup_dispose_timer c)) = marks (effects c) @ [False]"
  "marks (effects (end_stream X c)) = marks (effects c)"
  "marks (effects (end_raw c)) = marks (effects c)"
  "marks (effects (end_body_callback c)) = marks (effects c)"
  "marks (effects (end_promise X c)) = marks (effects c) @ [True]"
  by (simp_all add: end_cancel_def end_final_callback_def setup_dispose_timer_def
        end_stream_def end_raw_def end_body_callback_def end_promise_def promise_set_def)

lemma end_stage_request [simp]:
  "request (response (end_cancel c)) = request (response c)"
  "request (response (end_final_callback c)) = request (response c)"
  "request (response (setup_dispose_timer c)) = request (response c)"
  "request (response (end_stream X c)) = request (response c)"
  "request (response (end_raw c)) = request (response c)"
  "request (response (end_body_callback c)) = request (response c)"
  "request (response (end_promise X c)) = request (response c)"
  by (simp_all add: end_cancel_def end_final_callback_def setup_dispose_timer_def
        end_stream_def end_raw_def end_body_callback_def end_promise_def promise_set_def)

lemma end_stage_counter [simp]:
  "resp_redirect_count (response (end_cancel c)) = resp_redirect_count (response c)"
  "resp_redirect_count (response (end_final_callback c)) = resp_redirect_count (response c)"
  "resp_redirect_count (response (setup_dispose_timer c)) = resp_redirect_count (response c)"
  "resp_redirect_count (response (end_stream X c)) = resp_redirect_count (response c)"
  "resp_redirect_count (response (end_raw c)) = resp_redirect_count (response c)"
  "resp_redirect_count (response (end_body_callback c)) = resp_redirect_count (response c)"
  "resp_redirect_count (response (end_promise X c)) = resp_redirect_count (response c)"
  by (simp_all add: end_cancel_def end_final_callback_def setup_dispose_timer_def
        end_stream_def end_raw_def end_body_callback_def end_promise_def promise_set_def)

lemma end_stage_error [simp]:
  "error (response (end_cancel c)) = error (response c)"
  "error (response (end_final_callback c)) = error (response c)"
  "error (response (setup_dispose_timer c)) = error (response c)"
  "error (response (end_stream X c)) = error (response c)"
  "error (response (end_raw c)) = error (response c)"
  "error (response (end_body_callback c)) = error (response c)"
  "error (response (end_promise X c)) = error (response c)"
  by (simp_all add: end_cancel_def end_final_callback_def setup_dispose_timer_def
        end_stream_def end_raw_def end_body_callback_def end_promise_def promise_set_def)

lemma end_promise_promise [simp]: "promise (end_promise X c) \<noteq> None"
  by (simp add: end_promise_def promise_set_def split: option.splits)

lemma conn_end_simps [simp]:
  "state (conn_end X c) = state c"
  "m_is_reused (conn_end X c) = m_is_reused c"
  "marks (effects (conn_end X c)) = marks (effects c) @ [False, True]"
  "promise (conn_end X c) \<noteq> None"
  "request (response (conn_end X c)) = request (response c)"
  "resp_redirect_count (response (conn_end X c)) = resp_redirect_count (response c)"
  "error (response (conn_end X c)) = error (response c)"
  by (simp_all add: conn_end_def)

lemma in_final_state_conn_end [simp]: "in_final_state (conn_end X c) = in_final_state c"
  by (rule in_final_state_cong) simp


lemma in_final_state_const [simp]:
  "in_final_state (c\<lparr> state := INIT \<rparr>) = False"
  "in_final_state (c\<lparr> state := RESOLVE \<rparr>) = False"
  "in_final_state (c\<lparr> state := CONNECT \<rparr>) = False"
  "in_final_state (c\<lparr> state := HANDSHAKE \<rparr>) = False"
  "in_final_state (c\<lparr> state := WRITE \<rparr>) = False"
  "in_final_state (c\<lparr> state := READ_STATUS \<rparr>) = False"
  "in_final_state (c\<lparr> state := READ_HEADERS \<rparr>) = False"
  "in_final_state (c\<lparr> state := READ_CONTENT_LENGTH \<rparr>) = False"
  "in_final_state (c\<lparr> state := READ_CHUNK_HEADER \<rparr>) = False"
  "in_final_state (c\<lparr> state := READ_CHUNK_DATA \<rparr>) = False"
  "in_final_state (c\<lparr> state := READ_UNTIL_EOF \<rparr>) = False"
  "in_final_state (c\<lparr> state := SUCCESS \<rparr>) = True"
  "in_final_state (c\<lparr> state := RESOLVE_ERROR \<rparr>) = True"
  "in_final_state (c\<lparr> state := CONNECT_ERROR \<rparr>) = True"
  "in_final_state (c\<lparr> state := HANDSHAKE_ERROR \<rparr>) = True"
  "in_final_state (c\<lparr> state := WRITE_ERROR \<rparr>) = True"
  "in_final_state (c\<lparr> state := READ_STATUS_ERROR \<rparr>) = True"
  "in_final_state (c\<lparr> state := READ_STATUS_DATA_ERROR \<rparr>) = True"
  "in_final_state (c\<lparr> state := READ_HEADERS_ERROR \<rparr>) = True"
  "in_final_state (c\<lparr> state := READ_CONTENT_LENGTH_ERROR \<rparr>) = True"
  "in_final_state (c\<lparr> state := READ_CHUNK_HEADER_ERROR \<rparr>) = True"
  "in_final_state (c\<lparr> state := READ_CHUNK_DATA_ERROR \<rparr>) = True"
  "in_final_state (c\<lparr> state := READ_UNTIL_EOF_ERROR \<rparr>) = True"
  "in_final_state (c\<lparr> state := REDIRECT_EXHAUSTED \<rparr>) = True"
  "in_final_state (c\<lparr> state := REDIRECT_ERROR \<rparr>) = True"
  "in_final_state (c\<lparr> state := TIMEOUT \<rparr>) = True"
  "in_final_state (c\<lparr> state := EXPIRED \<rparr>) = True"
  by (simp_all add: in_final_state_def)

lemma in_final_state_set_state:
  "in_final_state (set_state s c) =
     (if \<not> in_final_state c \<or> state c = EXPIRED then in_final_state (c\<lparr> state := s \<rparr>)
      else True)"
  by (simp add: set_state_def)

lemma lifecycle_upd [simp]:
  "lifecycle t (c\<lparr> stream := a1 \<rparr>) = lifecycle t c"
  "lifecycle t (c\<lparr> response := a3 \<rparr>) = lifecycle t c"
  "lifecycle t (c\<lparr> m_is_reused := a4 \<rparr>) = lifecycle t c"
  "lifecycle t (c\<lparr> request_buf := a5 \<rparr>) = lifecycle t c"
  "lifecycle t (c\<lparr> response_buf := a6 \<rparr>) = lifecycle t c"
  "lifecycle t (c\<lparr> parser := a7 \<rparr>) = lifecycle t c"
  "lifecycle t (c\<lparr> header_field := a8 \<rparr>) = lifecycle t c"
  "lifecycle t (c\<lparr> content_length := a9 \<rparr>) = lifecycle t c"
  "lifecycle t (c\<lparr> raw := a10 \<rparr>) = lifecycle t c"
  "lifecycle t (c\<lparr> headers := a11 \<rparr>) = lifecycle t c"
  by (simp_all add: lifecycle_def)

lemma lifecycle_emit [simp]:
  "\<not> is_dispose_wait e \<Longrightarrow> \<not> is_promise_set e \<Longrightarrow> lifecycle t (emit e c) = lifecycle t c"
  by (simp add: lifecycle_def)

lemma lifecycle_set_state [simp]:
  "lifecycle t c \<Longrightarrow> \<not> in_final_state (c\<lparr> state := s \<rparr>) \<Longrightarrow> lifecycle t (set_state s c)"
  by (cases t) (auto simp: lifecycle_def set_state_def)

lemma lifecycle_terminal:
  "lifecycle t c \<Longrightarrow> \<not> in_final_state c \<Longrightarrow> in_final_state (c\<lparr> state := s \<rparr>) \<Longrightarrow>
     s \<noteq> EXPIRED \<Longrightarrow>
     lifecycle t (conn_end X ((set_state s c)\<lparr> response := r \<rparr>))"
  by (cases t) (auto simp: lifecycle_def state_set_state in_final_state_set_state
      intro: in_final_state_cong)


lemma lifecycle_steps [simp]:
  "lifecycle t c \<Longrightarrow> lifecycle t (prepare_parser c)"
  "lifecycle t c \<Longrightarrow> lifecycle t (resolve c)"
  "lifecycle t c \<Longrightarrow> lifecycle t (setup_timeout c)"
  "lifecycle t c \<Longrightarrow> lifecycle t (connect c)"
  "lifecycle t c \<Longrightarrow> lifecycle t (handshake c)"
  "lifecycle t c \<Longrightarrow> lifecycle t (conn_write X c)"
  "lifecycle t c \<Longrightarrow> lifecycle t (read_status c)"
  "lifecycle t c \<Longrightarrow> lifecycle t (read_headers c)"
  "lifecycle t c \<Longrightarrow> lifecycle t (read_content_length c)"
  "lifecycle t c \<Longrightarrow> lifecycle t (read_chunk_data c)"
  "lifecycle t c \<Longrightarrow> lifecycle t (read_until_eof c)"
  "lifecycle t c \<Longrightarrow> lifecycle t (received bytes c)"
  by (simp_all add: prepare_parser_def resolve_def setup_timeout_def connect_def
        handshake_def conn_write_def read_status_def read_headers_def
        read_content_length_def read_chunk_data_def read_until_eof_def received_def Let_def)

lemma lifecycle_callback [simp]: "lifecycle t (callback X c ev) = lifecycle t c"
  by (cases ev) (simp_all add: callback_def Let_def)

lemma lifecycle_callbacks [simp]: "lifecycle t (foldl (callback X) c evs) = lifecycle t c"
  by (induction evs arbitrary: c) simp_all

lemma lifecycle_execute_parser [simp]:
  "lifecycle t (snd (execute_parser X c)) = lifecycle t c"
  by (simp add: execute_parser_def Let_def)

lemma lifecycle_set_error [simp]:
  "lifecycle t c \<Longrightarrow> in_final_state (c\<lparr> state := s \<rparr>) \<Longrightarrow> s \<noteq> EXPIRED \<Longrightarrow>
     lifecycle t (set_error X s m c)"
  by (simp add: set_error_def Let_def lifecycle_terminal)

lemma lifecycle_set_error_ec [simp]:
  "lifecycle t c \<Longrightarrow> in_final_state (c\<lparr> state := s \<rparr>) \<Longrightarrow> s \<noteq> EXPIRED \<Longrightarrow>
     lifecycle t (set_error_ec X s ec c)"
  by (simp add: set_error_ec_def)

lemma lifecycle_set_timeout [simp]: "lifecycle t c \<Longrightarrow> lifecycle t (set_timeout X c)"
  by (simp add: set_timeout_def Let_def lifecycle_terminal)

lemma lifecycle_on_timeout [simp]: "lifecycle t c \<Longrightarrow> lifecycle t (on_timeout X ec c)"
  by (simp add: on_timeout_def)

lemma dispose_wait_marks: "list_ex is_dispose_wait es \<Longrightarrow> marks es \<noteq> []"
  by (induction es) auto

lemma lifecycle_on_dispose_timer [simp]:
  "lifecycle t c \<Longrightarrow> list_ex is_dispose_wait (effects c) \<Longrightarrow>
     lifecycle t (on_dispose_timer ec c)"
proof -
  assume l: "lifecycle t c" and w: "list_ex is_dispose_wait (effects c)"
  from dispose_wait_marks [OF w] l have "in_final_state c" "state c \<noteq> EXPIRED"
    by (auto simp: lifecycle_def split: if_splits)
  then have "set_state EXPIRED c = c" by (simp add: set_state_def)
  with l show ?thesis by (simp add: on_dispose_timer_def set_dispose_def)
qed

lemma lifecycle_perform_redirect [simp]:
  "lifecycle t c \<Longrightarrow> lifecycle t (perform_redirect X c)"
  by (simp add: perform_redirect_def Let_def)

lemma lifecycle_set_success [simp]: "lifecycle t c \<Longrightarrow> lifecycle t (set_success X c)"
  by (simp add: set_success_def Let_def lifecycle_terminal)

lemma prepare_parser_reused [simp]: "m_is_reused (prepare_parser c) = m_is_reused c"
  by (simp add: prepare_parser_def)

lemma start_not_reused:
  "\<not> m_is_reused c \<Longrightarrow> start X c = setup_timeout (resolve (prepare_parser c))"
  by (subst start.simps) (simp add: Let_def is_reused_def)

lemma lifecycle_restart [simp]: "lifecycle t c \<Longrightarrow> lifecycle t (restart X c)"
  by (subst restart.simps) (simp add: Let_def start_not_reused)

lemma lifecycle_start [simp]: "lifecycle t c \<Longrightarrow> lifecycle t (start X c)"
  by (subst start.simps) (simp add: Let_def)

lemma lifecycle_handlers [simp]:
  "lifecycle t c \<Longrightarrow> lifecycle t (on_resolve X ec c)"
  "lifecycle t c \<Longrightarrow> lifecycle t (on_connect X ec c)"
  "lifecycle t c \<Longrightarrow> lifecycle t (on_handshake X ec c)"
  "lifecycle t c \<Longrightarrow> lifecycle t (on_write X ec c)"
  "lifecycle t c \<Longrightarrow> lifecycle t (on_read_status X ec c)"
  "lifecycle t c \<Longrightarrow> lifecycle t (on_read_content_length X ec c)"
  "lifecycle t c \<Longrightarrow> lifecycle t (on_read_until_eof X ec c)"
  by (simp_all add: on_resolve_def on_connect_def on_handshake_def on_write_def
        on_read_status_def on_read_content_length_def on_read_until_eof_def Let_def)

lemma lifecycle_chunk:
  "lifecycle t c \<Longrightarrow> lifecycle t (read_chunk_header X c)"
  "lifecycle t c \<Longrightarrow> lifecycle t (on_read_chunk_header X ec c)"
  "lifecycle t c \<Longrightarrow> lifecycle t (on_read_chunk_data X ec c)"
proof (induction X c and X ec c and X ec c
    rule: read_chunk_header_on_read_chunk_header_on_read_chunk_data.induct)
  case (1 X c)
  then show ?case by (subst read_chunk_header.simps) (simp add: Let_def)
next
  case (2 X ec c)
  then show ?case by (subst on_read_chunk_header.simps) (simp add: Let_def)
next
  case (3 X ec c)
  then show ?case by (subst on_read_chunk_data.simps) (simp add: Let_def)
qed

lemma lifecycle_read_content [simp]: "lifecycle t c \<Longrightarrow> lifecycle t (read_content X c)"
  by (simp add: read_content_def lifecycle_chunk)

lemma lifecycle_on_read_headers [simp]:
  "lifecycle t c \<Longrightarrow> lifecycle t (on_read_headers X ec c)"
  by (simp add: on_read_headers_def Let_def)

lemma lifecycle_fire: "lifecycle t c \<Longrightarrow> enabled e c \<Longrightarrow> lifecycle t (fire X e c)"
  by (cases e) (simp_all add: lifecycle_chunk)

lemma lifecycle_run: "lifecycle t c \<Longrightarrow> run X es c = Some c' \<Longrightarrow> lifecycle t c'"
proof (induction es arbitrary: c)
  case Nil
  then show ?case by simp
next
  case (Cons e es)
  then have en: "enabled e c" and r: "run X es (fire X e c) = Some c'"
    by (auto split: if_splits)
  from Cons.IH [OF lifecycle_fire [OF Cons.prems(1) en] r] show ?case .
qed

subsection \<open>The reused flag is never set again\<close>

lemma reused_steps [simp]:
  "m_is_reused (resolve c) = m_is_reused c"
  "m_is_reused (setup_timeout c) = m_is_reused c"
  "m_is_reused (connect c) = m_is_reused c"
  "m_is_reused (handshake c) = m_is_reused c"
  "m_is_reused (conn_write X c) = m_is_reused c"
  "m_is_reused (read_status c) = m_is_reused c"
  "m_is_reused (read_headers c) = m_is_reused c"
  "m_is_reused (read_content_length c) = m_is_reused c"
  "m_is_reused (read_chunk_data c) = m_is_reused c"
  "m_is_reused (read_until_eof c) = m_is_reused c"
  "m_is_reused (received bytes c) = m_is_reused c"
  "m_is_reused (set_error X s m c) = m_is_reused c"
  "m_is_reused (set_error_ec X s ec c) = m_is_reused c"
  "m_is_reused (set_dispose c) = m_is_reused c"
  "m_is_reused (on_dispose_timer ec c) = m_is_reused c"
  by (simp_all add: resolve_def setup_timeout_def connect_def
        handshake_def conn_write_def read_status_def read_headers_def
        read_content_length_def read_chunk_data_def read_until_eof_def received_def
        set_error_def set_error_ec_def set_dispose_def on_dispose_timer_def Let_def)

lemma reused_callback [simp]: "m_is_reused (callback X c ev) = m_is_reused c"
  by (cases ev) (simp_all add: callback_def Let_def)

lemma reused_callbacks [simp]: "m_is_reused (foldl (callback X) c evs) = m_is_reused c"
  by (induction evs arbitrary: c) simp_all

lemma reused_execute_parser [simp]: "m_is_reused (snd (execute_parser X c)) = m_is_reused c"
  by (simp add: execute_parser_def Let_def)

lemma reused_set_timeout [simp]: "m_is_reused (set_timeout X c) = m_is_reused c"
  by (simp add: set_timeout_def Let_def)

lemma reused_on_timeout [simp]: "m_is_reused (on_timeout X ec c) = m_is_reused c"
  by (simp add: on_timeout_def)

lemma reused_perform_redirect [simp]: "m_is_reused (perform_redirect X c) = m_is_reused c"
  by (simp add: perform_redirect_def Let_def)

lemma reused_set_success [simp]: "m_is_reused (set_success X c) = m_is_reused c"
  by (simp add: set_success_def Let_def)

lemma restart_clears_reused [simp]: "\<not> m_is_reused (restart X c)"
  by (subst restart.simps) (simp add: Let_def start_not_reused)

lemma not_reused_start [simp]: "\<not> m_is_reused c \<Longrightarrow> \<not> m_is_reused (start X c)"
  by (simp add: start_not_reused)

lemma not_reused_handlers [simp]:
  "\<not> m_is_reused c \<Longrightarrow> \<not> m_is_reused (on_resolve X ec c)"
  "\<not> m_is_reused c \<Longrightarrow> \<not> m_is_reused (on_connect X ec c)"
  "\<not> m_is_reused c \<Longrightarrow> \<not> m_is_reused (on_handshake X ec c)"
  "\<not> m_is_reused c \<Longrightarrow> \<not> m_is_reused (on_write X ec c)"
  "\<not> m_is_reused c \<Longrightarrow> \<not> m_is_reused (on_read_status X ec c)"
  "\<not> m_is_reused c \<Longrightarrow> \<not> m_is_reused (on_read_content_length X ec c)"
  "\<not> m_is_reused c \<Longrightarrow> \<not> m_is_reused (on_read_until_eof X ec c)"
  by (simp_all add: on_resolve_def on_connect_def on_handshake_def on_write_def
        on_read_status_def on_read_content_length_def on_read_until_eof_def Let_def)

lemma reused_chunk:
  "m_is_reused (read_chunk_header X c) = m_is_reused c"
  "m_is_reused (on_read_chunk_header X ec c) = m_is_reused c"
  "m_is_reused (on_read_chunk_data X ec c) = m_is_reused c"
proof (induction X c and X ec c and X ec c
    rule: read_chunk_header_on_read_chunk_header_on_read_chunk_data.induct)
  case (1 X c)
  then show ?case by (subst read_chunk_header.simps) (simp add: Let_def)
next
  case (2 X ec c)
  then show ?case by (subst on_read_chunk_header.simps) (simp add: Let_def)
next
  case (3 X ec c)
  then show ?case by (subst on_read_chunk_data.simps) (simp add: Let_def)
qed

lemma reused_read_content [simp]: "m_is_reused (read_content X c) = m_is_reused c"
  by (simp add: read_content_def reused_chunk)

lemma reused_on_read_headers [simp]: "m_is_reused (on_read_headers X ec c) = m_is_reused c"
  by (simp add: on_read_headers_def Let_def)

lemma not_reused_fire: "\<not> m_is_reused c \<Longrightarrow> \<not> m_is_reused (fire X e c)"
  by (cases e) (simp_all add: reused_chunk)

lemma not_reused_run: "\<not> m_is_reused c \<Longrightarrow> run X es c = Some c' \<Longrightarrow> \<not> m_is_reused c'"
proof (induction es arbitrary: c)
  case Nil
  then show ?case by simp
next
  case (Cons e es)
  then have r: "run X es (fire X e c) = Some c'"
    by (auto split: if_splits)
  from Cons.IH [OF not_reused_fire [OF Cons.prems(1)] r] show ?case .
qed

subsection \<open>The redirect counter\<close>

lemma within_upd [simp]:
  "within cap (c\<lparr> stream := a1 \<rparr>) = within cap c"
  "within cap (c\<lparr> promise := a2 \<rparr>) = within cap c"
  "within cap (c\<lparr> state := a3 \<rparr>) = within cap c"
  "within cap (c\<lparr> m_is_reused := a4 \<rparr>) = within cap c"
  "within cap (c\<lparr> request_buf := a5 \<rparr>) = within cap c"
  "within cap (c\<lparr> response_buf := a6 \<rparr>) = within cap c"
  "within cap (c\<lparr> parser := a7 \<rparr>) = within cap c"
  "within cap (c\<lparr> header_field := a8 \<rparr>) = within cap c"
  "within cap (c\<lparr> content_length := a9 \<rparr>) = within cap c"
  "within cap (c\<lparr> raw := a10 \<rparr>) = within cap c"
  "within cap (c\<lparr> headers := a11 \<rparr>) = within cap c"
  by (simp_all add: within_def)

lemma within_response_upd [simp]:
  "within cap (c\<lparr> response := (response c)\<lparr> error := b1 \<rparr> \<rparr>) = within cap c"
  "within cap (c\<lparr> response := (response c)\<lparr> resp_cookies := b2 \<rparr> \<rparr>) = within cap c"
  "within cap (c\<lparr> response := (response c)\<lparr> resp_headers := b3 \<rparr> \<rparr>) = within cap c"
  "within cap (c\<lparr> response := (response c)\<lparr> http_major := b4, http_minor := b5,
       status_code := b6, status_message := b7 \<rparr> \<rparr>) = within cap c"
  by (simp_all add: within_def)

lemma redirects_followed_simps [simp]:
  "redirects_followed [] = 0"
  "redirects_followed (es @ fs) = redirects_followed es + redirects_followed fs"
  "redirects_followed (e # es) = (if is_uri_from_string e then 1 else 0) + redirects_followed es"
  by (simp_all add: redirects_followed_def)

lemma end_stage_followed [simp]:
  "redirects_followed (effects (end_cancel c)) = redirects_followed (effects c)"
  "redirects_followed (effects (end_final_callback c)) = redirects_followed (effects c)"
  "redirects_followed (effects (setup_dispose_timer c)) = redirects_followed (effects c)"
  "redirects_followed (effects (end_stream X c)) = redirects_followed (effects c)"
  "redirects_followed (effects (end_raw c)) = redirects_followed (effects c)"
  "redirects_followed (effects (end_body_callback c)) = redirects_followed (effects c)"
  "redirects_followed (effects (end_promise X c)) = redirects_followed (effects c)"
  by (simp_all add: end_cancel_def end_final_callback_def setup_dispose_timer_def
        end_stream_def end_raw_def end_body_callback_def end_promise_def promise_set_def)

lemma conn_end_followed [simp]:
  "redirects_followed (effects (conn_end X c)) = redirects_followed (effects c)"
  by (simp add: conn_end_def)

lemma within_prims [simp]:
  "\<not> is_uri_from_string e \<Longrightarrow> within cap (emit e c) = within cap c"
  "within cap (set_state s c) = within cap c"
  "within cap (conn_end X c) = within cap c"
  by (simp_all add: within_def)

lemma within_steps [simp]:
  "within cap (prepare_parser c) = within cap c"
  "within cap (resolve c) = within cap c"
  "within cap (setup_timeout c) = within cap c"
  "within cap (connect c) = within cap c"
  "within cap (handshake c) = within cap c"
  "within cap (conn_write X c) = within cap c"
  "within cap (read_status c) = within cap c"
  "within cap (read_headers c) = within cap c"
  "within cap (read_content_length c) = within cap c"
  "within cap (read_chunk_data c) = within cap c"
  "within cap (read_until_eof c) = within cap c"
  "within cap (received bytes c) = within cap c"
  "within cap (set_dispose c) = within cap c"
  "within cap (on_dispose_timer ec c) = within cap c"
  by (simp_all add: prepare_parser_def resolve_def setup_timeout_def connect_def
        handshake_def conn_write_def read_status_def read_headers_def
        read_content_length_def read_chunk_data_def read_until_eof_def received_def
        set_dispose_def on_dispose_timer_def Let_def)

lemma within_set_error [simp]:
  "within cap (set_error X s m c) = within cap c"
  "within cap (set_error_ec X s ec c) = within cap c"
  by (simp_all add: set_error_def set_error_ec_def Let_def within_def)

lemma within_callback [simp]: "within cap (callback X c ev) = within cap c"
  by (cases ev) (simp_all add: callback_def Let_def within_def)

lemma within_callbacks [simp]: "within cap (foldl (callback X) c evs) = within cap c"
  by (induction evs arbitrary: c) simp_all

lemma within_execute_parser [simp]: "within cap (snd (execute_parser X c)) = within cap c"
  by (simp add: execute_parser_def Let_def)

lemma within_set_timeout [simp]:
  "within cap (set_timeout X c) = within cap c"
  "within cap (on_timeout X ec c) = within cap c"
  by (simp_all add: set_timeout_def on_timeout_def Let_def within_def)

lemma within_perform_redirect [simp]:
  "prepare_keeps_cap X \<Longrightarrow> within cap c \<Longrightarrow> within cap (perform_redirect X c)"
  by (simp add: perform_redirect_def Let_def)
     (auto simp: within_def prepare_keeps_cap_def is_redirect_exhausted_def response_new_def)

lemma within_set_success [simp]:
  "prepare_keeps_cap X \<Longrightarrow> within cap c \<Longrightarrow> within cap (set_success X c)"
  by (simp add: set_success_def Let_def) (simp add: within_def)

lemma within_restart [simp]: "within cap (restart X c) = within cap c"
  by (subst restart.simps) (simp add: Let_def start_not_reused)

lemma within_start [simp]: "within cap (start X c) = within cap c"
  by (subst start.simps) (simp add: Let_def)

lemma within_handlers [simp]:
  "within cap c \<Longrightarrow> within cap (on_resolve X ec c)"
  "within cap c \<Longrightarrow> within cap (on_connect X ec c)"
  "within cap c \<Longrightarrow> within cap (on_handshake X ec c)"
  "within cap c \<Longrightarrow> within cap (on_write X ec c)"
  "prepare_keeps_cap X \<Longrightarrow> within cap c \<Longrightarrow> within cap (on_read_status X ec c)"
  "prepare_keeps_cap X \<Longrightarrow> within cap c \<Longrightarrow> within cap (on_read_content_length X ec c)"
  "prepare_keeps_cap X \<Longrightarrow> within cap c \<Longrightarrow> within cap (on_read_until_eof X ec c)"
  by (simp_all add: on_resolve_def on_connect_def on_handshake_def on_write_def
        on_read_status_def on_read_content_length_def on_read_until_eof_def Let_def)

lemma within_chunk:
  "prepare_keeps_cap X \<Longrightarrow> within cap c \<Longrightarrow> within cap (read_chunk_header X c)"
  "prepare_keeps_cap X \<Longrightarrow> within cap c \<Longrightarrow> within cap (on_read_chunk_header X ec c)"
  "prepare_keeps_cap X \<Longrightarrow> within cap c \<Longrightarrow> within cap (on_read_chunk_data X ec c)"
proof (induction X c and X ec c and X ec c
    rule: read_chunk_header_on_read_chunk_header_on_read_chunk_data.induct)
  case (1 X c)
  then show ?case by (subst read_chunk_header.simps) (simp add: Let_def)
next
  case (2 X ec c)
  then show ?case by (subst on_read_chunk_header.simps) (simp add: Let_def)
next
  case (3 X ec c)
  then show ?case by (subst on_read_chunk_data.simps) (simp add: Let_def)
qed

lemma within_read_content [simp]:
  "prepare_keeps_cap X \<Longrightarrow> within cap c \<Longrightarrow> within cap (read_content X c)"
  by (simp add: read_content_def within_chunk)

lemma within_on_read_headers [simp]:
  "prepare_keeps_cap X \<Longrightarrow> within cap c \<Longrightarrow> within cap (on_read_headers X ec c)"
  by (simp add: on_read_headers_def Let_def)

lemma within_fire: "prepare_keeps_cap X \<Longrightarrow> within cap c \<Longrightarrow> within cap (fire X e c)"
  by (cases e) (simp_all add: within_chunk)

lemma within_run:
  "prepare_keeps_cap X \<Longrightarrow> within cap c \<Longrightarrow> run X es c = Some c' \<Longrightarrow> within cap c'"
proof (induction es arbitrary: c)
  case Nil
  then show ?case by simp
next
  case (Cons e es)
  then have r: "run X es (fire X e c) = Some c'"
    by (auto split: if_splits)
  from Cons.IH [OF Cons.prems(1) within_fire [OF Cons.prems(1) Cons.prems(2)] r]
  show ?case .
qed

lemma lifecycle_conn_new: "lifecycle None (conn_new X rq)"
  by (simp add: lifecycle_def conn_new_def in_final_state_def)

lemma lifecycle_conn_reuse: "lifecycle None (conn_reuse X rq old prev)"
  by (simp add: lifecycle_def conn_reuse_def in_final_state_def)

lemma example_started_eq:
  "example_started =
     (conn_new example_externals example_request)
       \<lparr> state := RESOLVE,
         effects := [Resolver_async_resolve ''host'' ''80'', Timeout_timer_async_wait 1] \<rparr>"
  by (simp add: example_started_def start_not_reused conn_new_def setup_timeout_def
      resolve_def prepare_parser_def emit_def set_state_def in_final_state_def
      response_new_def example_request_def example_uri_def)

lemmas end_defs = conn_end_def end_cancel_def end_final_callback_def setup_dispose_timer_def
  end_stream_def end_raw_def end_body_callback_def end_promise_def promise_set_def

lemma example_failed_facts:
  "state example_failed = RESOLVE_ERROR"
  "map is_dispose_wait (effects example_failed) = [False, False, False, False, True, False, False]"
  "map is_promise_set (effects example_failed) = [False, False, False, False, False, False, True]"
  by (simp_all add: example_failed_def example_started_eq on_resolve_def set_error_ec_def
      set_error_def end_defs Let_def emit_def set_state_def in_final_state_def
      conn_new_def response_new_def example_request_def example_externals_def)

lemma example_failed_enabled: "enabled (Ev_dispose_timer No_error) example_failed"
proof -
  have "list_ex is_dispose_wait es = list_ex (\<lambda>b. b) (map is_dispose_wait es)" for es
    by (induction es) auto
  then show ?thesis by (simp add: example_failed_facts)
qed

lemma promise_sets_marks:
  "length (filter is_promise_set es) = length (filter (\<lambda>b. b) (marks es))"
  by (induction es) auto

lemma dispose_waits_marks: "list_ex is_dispose_wait es = list_ex Not (marks es)"
proof (induction es)
  case Nil
  then show ?case by simp
next
  case (Cons e es)
  then show ?case by (cases e) auto
qed

lemma fulfilled_before_armed_marks:
  "fulfilled_before_armed es = list_ex Not (dropWhile Not (marks es))"
proof (induction es)
  case Nil
  then show ?case by (simp add: fulfilled_before_armed_def)
next
  case (Cons e es)
  then show ?case
    by (cases e) (auto simp: fulfilled_before_armed_def dispose_waits_marks)
qed

lemma lifecycle_frozen:
  assumes "lifecycle None c" "in_final_state c" "enabled e c"
  shows "state (fire X e c) = state c \<and> marks (effects (fire X e c)) = marks (effects c)"
proof -
  from assms have "lifecycle (Some (state c)) c" by (simp add: lifecycle_def)
  from lifecycle_fire [OF this assms(3), of X] assms(1,2) show ?thesis
    by (auto simp: lifecycle_def)
qed

lemma timeout_final:
  "lifecycle None c \<Longrightarrow> in_final_state (fire X (Ev_timeout No_error) c)"
proof -
  assume l: "lifecycle None c"
  show ?thesis
  proof (cases "in_final_state c")
    case True
    then show ?thesis by (simp add: on_timeout_def set_timeout_def)
  next
    case False
    then show ?thesis
      by (simp add: on_timeout_def set_timeout_def Let_def in_final_state_set_state)
  qed
qed

lemma final_run:
  "lifecycle None c \<Longrightarrow> in_final_state c \<Longrightarrow> run X es c = Some c' \<Longrightarrow> in_final_state c'"
proof -
  assume a: "lifecycle None c" "in_final_state c" "run X es c = Some c'"
  then have "lifecycle (Some (state c)) c" by (simp add: lifecycle_def)
  from lifecycle_run [OF this a(3)] show ?thesis by (simp add: lifecycle_def)
qed

lemma timeout_run:
  "lifecycle None c \<Longrightarrow> run X es c = Some c' \<Longrightarrow> Ev_timeout No_error \<in> set es \<Longrightarrow>
     in_final_state c'"
proof (induction es arbitrary: c)
  case Nil
  then show ?case by simp
next
  case (Cons e es)
  then have en: "enabled e c" and r: "run X es (fire X e c) = Some c'"
    by (auto split: if_splits)
  have l: "lifecycle None (fire X e c)" by (rule lifecycle_fire [OF Cons.prems(1) en])
  show ?case
  proof (cases "e = Ev_timeout No_error")
    case True
    with timeout_final [OF Cons.prems(1), of X] have "in_final_state (fire X e c)" by simp
    from final_run [OF l this r] show ?thesis .
  next
    case False
    with Cons.prems(3) have "Ev_timeout No_error \<in> set es" by simp
    from Cons.IH [OF l r this] show ?thesis .
  qed
qed

lemma set_error_proj [simp]:
  "state (set_error X s m c) = (if in_final_state c then state c else s)"
  "request (response (set_error X s m c)) = request (response c)"
  "resp_redirect_count (response (set_error X s m c)) = resp_redirect_count (response c)"
  "error (response (set_error X s m c))
     = (if in_final_state c then error (response c) else \<lparr> code = s, msg = m \<rparr>)"
  "(promise (set_error X s m c) = None) = (in_final_state c \<and> promise c = None)"
  by (simp_all add: set_error_def Let_def state_set_state)

lemma socket_closed_ec: "is_socket_closed ec \<Longrightarrow> ec \<noteq> No_error \<and> ec \<noteq> Operation_aborted"
  by (auto simp: is_socket_closed_def)

lemma within_conn_new: "within (redirect_count rq) (conn_new X rq)"
  by (simp add: within_def conn_new_def response_new_def)

lemma within_conn_reuse: "within (redirect_count rq) (conn_reuse X rq old prev)"
  by (simp add: within_def conn_reuse_def response_new_def)

lemma perform_redirect_counter:
  "resp_redirect_count (response (perform_redirect X c))
     = (if is_redirect_exhausted (response c)
           \<or> headers_count X (resp_headers (response c)) ''Location'' = 0
        then resp_redirect_count (response c) else resp_redirect_count (response c) + 1)"
  by (simp add: perform_redirect_def Let_def resolve_def prepare_parser_def)

lemma state_callbacks [simp]: "state (foldl (callback X) c evs) = state c"
proof (induction evs arbitrary: c)
  case Nil
  then show ?case by simp
next
  case (Cons ev evs)
  have "state (callback X c ev) = state c"
    by (cases ev) (simp_all add: callback_def Let_def)
  with Cons show ?case by simp
qed

lemma state_execute_parser [simp]: "state (snd (execute_parser X c)) = state c"
  by (simp add: execute_parser_def Let_def)

lemma in_final_state_execute_parser [simp]:
  "in_final_state (snd (execute_parser X c)) = in_final_state c"
  by (rule in_final_state_cong) simp

lemma state_set_success:
  "state (set_success X c) = state c \<or> state (set_success X c) = SUCCESS
   \<or> state (set_success X c) = REDIRECT_EXHAUSTED \<or> state (set_success X c) = REDIRECT_ERROR
   \<or> state (set_success X c) = RESOLVE"
  by (simp add: set_success_def perform_redirect_def Let_def resolve_def prepare_parser_def
      state_set_state)

lemma deficit_no_wrap:
  fixes a b :: nat
  assumes "b \<le> a" "a < 2 ^ 64"
  shows "nat ((int a - int b) mod 2 ^ 64) = a - b"
proof -
  from assms(1) have e: "int a - int b = int (a - b)" by (rule of_nat_diff [symmetric])
  from assms have "a - b < 2 ^ 64" by (rule_tac less_imp_diff_less)
  then have "int (a - b) < 2 ^ 64" by (simp only: of_nat_less_numeral_power_cancel_iff)
  then have "int (a - b) mod 2 ^ 64 = int (a - b)" by (intro mod_pos_pos_trivial) simp_all
  with e show ?thesis by (simp only: nat_int)
qed

lemma read_chunk_data_deficit:
  assumes "length (response_buf c) \<le> content_length c" "content_length c < 2 ^ 64"
  shows "read_chunk_data c
     = emit (Stream_async_read (content_length c - length (response_buf c)))
         (set_state READ_CHUNK_DATA c)"
  unfolding read_chunk_data_def Let_def set_state_simps
  by (simp only: deficit_no_wrap [OF assms])

lemma on_read_chunk_header_parsed:
  "fst (execute_parser X c) \<Longrightarrow> 0 < content_length (snd (execute_parser X c)) \<Longrightarrow>
   on_read_chunk_header X No_error c
     = (if content_length (snd (execute_parser X c))
            < length (response_buf (snd (execute_parser X c)))
        then on_read_chunk_data X No_error (set_state READ_CHUNK_DATA (snd (execute_parser X c)))
        else read_chunk_data (snd (execute_parser X c)))"
  by (subst on_read_chunk_header.simps) (simp add: Let_def)

lemma final_fire:
  "lifecycle None c \<Longrightarrow> in_final_state c \<Longrightarrow> enabled e c \<Longrightarrow> in_final_state (fire X e c)"
proof -
  assume a: "lifecycle None c" "in_final_state c" "enabled e c"
  then have "lifecycle (Some (state c)) c" by (simp add: lifecycle_def)
  from lifecycle_fire [OF this a(3), of X] show ?thesis by (simp add: lifecycle_def)
qed

lemma terminal_transitions_run:
  "lifecycle None c \<Longrightarrow> run X es c = Some c' \<Longrightarrow>
     terminal_transitions X es c + (if in_final_state c then 1 else 0)
       = (if in_final_state c' then 1 else 0)"
proof (induction es arbitrary: c)
  case Nil
  then show ?case by simp
next
  case (Cons e es)
  then have en: "enabled e c" and r: "run X es (fire X e c) = Some c'"
    by (auto split: if_splits)
  have l: "lifecycle None (fire X e c)" by (rule lifecycle_fire [OF Cons.prems(1) en])
  note ih = Cons.IH [OF l r]
  show ?case
  proof (cases "in_final_state c")
    case True
    with final_fire [OF Cons.prems(1) True en, of X] ih show ?thesis by simp
  next
    case False
    with ih show ?thesis by simp
  qed
qed

lemma terminal_kept:
  "in_final_state c \<Longrightarrow> state c \<noteq> EXPIRED \<Longrightarrow>
     set_state s c = c \<and> set_error X s m c = c \<and> set_error_ec X s ec c = c"
  by (simp add: set_state_def set_error_def set_error_ec_def)

lemma start_not_final:
  "c0 = conn_new X rq \<or> c0 = conn_reuse X rq old prev \<Longrightarrow>
     lifecycle None (start X c0) \<and> \<not> in_final_state (start X c0)"
proof -
  assume h: "c0 = conn_new X rq \<or> c0 = conn_reuse X rq old prev"
  then have l: "lifecycle None c0" using lifecycle_conn_new lifecycle_conn_reuse by auto
  then have s: "lifecycle None (start X c0)" by simp
  from h have "effects c0 = []" by (auto simp: conn_new_def conn_reuse_def)
  have m: "\<not> list_ex is_promise_set (effects (start X c0))"
  proof (cases "m_is_reused c0")
    case False
    with \<open>effects c0 = []\<close> show ?thesis
      by (simp add: start_not_reused setup_timeout_def resolve_def prepare_parser_def)
  next
    case True
    with \<open>effects c0 = []\<close> show ?thesis
      by (subst start.simps, subst restart.simps)
         (simp add: Let_def is_reused_def start_not_reused setup_timeout_def resolve_def
            prepare_parser_def conn_write_def)
  qed
  have "list_ex is_promise_set es = list_ex (\<lambda>b. b) (marks es)" for es
    by (induction es) auto
  with m s have "\<not> in_final_state (start X c0)"
    by (auto simp: lifecycle_def split: if_splits)
  with s show ?thesis by simp
qed

lemma set_error_followed [simp]:
  "redirects_followed (effects (set_error X s m c)) = redirects_followed (effects c)"
  by (simp add: set_error_def Let_def)

lemma perform_redirect_followed:
  "redirects_followed (effects (perform_redirect X c))
     = (if is_redirect_exhausted (response c)
           \<or> headers_count X (resp_headers (response c)) ''Location'' = 0
        then redirects_followed (effects c) else redirects_followed (effects c) + 1)"
  by (simp add: perform_redirect_def Let_def resolve_def prepare_parser_def)

lemma example_redirect_prepare_keeps_cap: "prepare_keeps_cap example_redirect_externals"
  by (simp add: prepare_keeps_cap_def example_redirect_externals_def example_externals_def)

text \<open>
  The guard of \<^verbatim>\<open>set_state\<close> lets a connection in \<open>EXPIRED\<close> take any state.
\<close>

lemma set_state_from_expired:
  "state c = EXPIRED \<Longrightarrow> in_final_state c \<and> state (set_state s c) = s"
  by (simp add: in_final_state_def set_state_def)

section \<open>The claims\<close>

text \<open>
  C1. A terminal state (a final state other than the post-terminal \<open>EXPIRED\<close>) is kept:
  \<^verbatim>\<open>set_state\<close> and both forms of \<^verbatim>\<open>set_error\<close> return a connection in such a state
  unchanged, whatever state they are given. For a connection built by either constructor
  and started, on every run: the number of steps that take it from a state that is not
  final into a final one is 1 when the run has reached a final state and 0 when it has
  not, and it is 1 whenever the timeout timer fired without error during the run; the
  state is never \<open>EXPIRED\<close>; and in a final state no further completion changes the state.
\<close>

theorem terminal_state_kept:
  "(in_final_state c \<and> state c \<noteq> EXPIRED
      \<longrightarrow> set_state s c = c \<and> set_error X s m c = c \<and> set_error_ec X s ec c = c)
   \<and> ((c0 = conn_new X rq \<or> c0 = conn_reuse X rq old prev)
        \<and> run X es (start X c0) = Some c'
      \<longrightarrow> terminal_transitions X es (start X c0) = (if in_final_state c' then 1 else 0)
        \<and> (Ev_timeout No_error \<in> set es \<longrightarrow> terminal_transitions X es (start X c0) = 1)
        \<and> state c' \<noteq> EXPIRED
        \<and> (in_final_state c' \<and> enabled e c' \<longrightarrow> state (fire X e c') = state c'))"
proof (intro conjI impI)
  assume "in_final_state c \<and> state c \<noteq> EXPIRED"
  then show "set_state s c = c" and "set_error X s m c = c" and "set_error_ec X s ec c = c"
    using terminal_kept by blast+
next
  assume h: "(c0 = conn_new X rq \<or> c0 = conn_reuse X rq old prev)
        \<and> run X es (start X c0) = Some c'"
  then have s: "lifecycle None (start X c0)" and n: "\<not> in_final_state (start X c0)"
    using start_not_final by blast+
  from h have r: "run X es (start X c0) = Some c'" by simp
  from terminal_transitions_run [OF s r] n
  show t: "terminal_transitions X es (start X c0) = (if in_final_state c' then 1 else 0)"
    by simp
  from lifecycle_run [OF s r] show "state c' \<noteq> EXPIRED" by (simp add: lifecycle_def)
  {
    assume "Ev_timeout No_error \<in> set es"
    from timeout_run [OF s r this] t
    show "terminal_transitions X es (start X c0) = 1" by simp
  }
  {
    assume "in_final_state c' \<and> enabled e c'"
    with lifecycle_frozen [OF lifecycle_run [OF s r], of e X]
    show "state (fire X e c') = state c'" by blast
  }
qed

theorem terminal_state_kept_witness:
  "in_final_state example_failed \<and> state example_failed = RESOLVE_ERROR
   \<and> set_state EXPIRED example_failed = example_failed
   \<and> set_state SUCCESS example_failed = example_failed
   \<and> set_error example_externals TIMEOUT ''timeout'' example_failed = example_failed
   \<and> run example_externals [Ev_resolve (Other_ec 1), Ev_timeout No_error]
         (start example_externals (conn_new example_externals example_request))
       = Some (fire example_externals (Ev_timeout No_error) example_failed)
   \<and> Ev_timeout No_error \<in> set [Ev_resolve (Other_ec 1), Ev_timeout No_error]
   \<and> terminal_transitions example_externals [Ev_resolve (Other_ec 1), Ev_timeout No_error]
         (start example_externals (conn_new example_externals example_request)) = 1
   \<and> state (fire example_externals (Ev_timeout No_error) example_failed) = RESOLVE_ERROR
   \<and> enabled (Ev_connect No_error) (fire example_externals (Ev_timeout No_error) example_failed)
   \<and> state (fire example_externals (Ev_connect No_error)
               (fire example_externals (Ev_timeout No_error) example_failed)) = RESOLVE_ERROR"
proof -
  have st: "state example_failed = RESOLVE_ERROR" by (rule example_failed_facts)
  then have fin: "in_final_state example_failed \<and> state example_failed \<noteq> EXPIRED"
    by (simp add: in_final_state_def)
  have r: "(conn_new example_externals example_request
             = conn_new example_externals example_request
            \<or> conn_new example_externals example_request
             = conn_reuse example_externals example_request example_started
                 (response example_started))
      \<and> run example_externals [Ev_resolve (Other_ec 1), Ev_timeout No_error]
         (start example_externals (conn_new example_externals example_request))
       = Some (fire example_externals (Ev_timeout No_error) example_failed)"
    by (simp add: example_failed_def example_started_def)
  have t: "Ev_timeout No_error \<in> set [Ev_resolve (Other_ec 1), Ev_timeout No_error]"
    by simp
  have f: "in_final_state (fire example_externals (Ev_timeout No_error) example_failed)
      \<and> enabled (Ev_connect No_error)
           (fire example_externals (Ev_timeout No_error) example_failed)"
    by code_simp
  have st2: "state (fire example_externals (Ev_timeout No_error) example_failed)
      = RESOLVE_ERROR"
    by code_simp
  note a = terminal_state_kept
    [of example_failed EXPIRED example_externals "''timeout''" Eof]
  note b = terminal_state_kept
    [of example_failed SUCCESS example_externals "''timeout''" Eof]
  note c = terminal_state_kept
    [of example_failed TIMEOUT example_externals "''timeout''" Eof
        "conn_new example_externals example_request" example_request
        example_started "response example_started"
        "[Ev_resolve (Other_ec 1), Ev_timeout No_error]"
        "fire example_externals (Ev_timeout No_error) example_failed"
        "Ev_connect No_error"]
  from a fin have p1: "set_state EXPIRED example_failed = example_failed" by blast
  from b fin have p2: "set_state SUCCESS example_failed = example_failed" by blast
  from c fin have p3: "set_error example_externals TIMEOUT ''timeout'' example_failed
      = example_failed" by blast
  from c r t have p4: "terminal_transitions example_externals
        [Ev_resolve (Other_ec 1), Ev_timeout No_error]
        (start example_externals (conn_new example_externals example_request)) = 1"
    by blast
  from c r f have "state (fire example_externals (Ev_connect No_error)
               (fire example_externals (Ev_timeout No_error) example_failed))
     = state (fire example_externals (Ev_timeout No_error) example_failed)"
    by blast
  with st2 have p5: "state (fire example_externals (Ev_connect No_error)
               (fire example_externals (Ev_timeout No_error) example_failed)) = RESOLVE_ERROR"
    by simp
  from fin st r t f st2 p1 p2 p3 p4 p5 show ?thesis by simp
qed

text \<open>
  C2, as the code has it. \<^verbatim>\<open>end\<close> arms the dispose timer first and fulfils the promise
  last. For a connection built by either constructor and started, after any run:
  the log holds exactly one dispose-timer wait followed by exactly one fulfilment when the
  state is final and neither of them when it is not (so the fulfilment is made by the
  step that reaches the final state, and by no other); the promise is pending exactly
  when the state is not final; no dispose-timer wait follows a fulfilment; a further
  completion in a final state changes neither the state nor these marks; and a run in
  which the timeout timer fired without error has reached a final state.
\<close>

theorem future_fulfilled_once_dispose_first:
  "(c0 = conn_new X rq \<or> c0 = conn_reuse X rq old prev) \<and> run X es (start X c0) = Some c
   \<longrightarrow> marks (effects c) = (if in_final_state c then [False, True] else [])
     \<and> length (filter is_promise_set (effects c)) = (if in_final_state c then 1 else 0)
     \<and> (promise c = None \<longleftrightarrow> \<not> in_final_state c)
     \<and> \<not> fulfilled_before_armed (effects c)
     \<and> (in_final_state c \<and> enabled e c
          \<longrightarrow> state (fire X e c) = state c
            \<and> marks (effects (fire X e c)) = marks (effects c))
     \<and> (Ev_timeout No_error \<in> set es \<longrightarrow> in_final_state c)"
proof
  assume h: "(c0 = conn_new X rq \<or> c0 = conn_reuse X rq old prev)
     \<and> run X es (start X c0) = Some c"
  then have "lifecycle None c0"
    using lifecycle_conn_new lifecycle_conn_reuse by auto
  then have s: "lifecycle None (start X c0)" by simp
  with h have l: "lifecycle None c" using lifecycle_run by blast
  from l have m: "marks (effects c) = (if in_final_state c then [False, True] else [])"
    by (simp add: lifecycle_def)
  from m have n: "length (filter is_promise_set (effects c)) = (if in_final_state c then 1 else 0)"
    by (simp add: promise_sets_marks)
  from l have p: "promise c = None \<longleftrightarrow> \<not> in_final_state c" by (simp add: lifecycle_def)
  from m have f: "\<not> fulfilled_before_armed (effects c)"
    by (simp add: fulfilled_before_armed_marks)
  have z: "in_final_state c \<and> enabled e c
          \<longrightarrow> state (fire X e c) = state c
            \<and> marks (effects (fire X e c)) = marks (effects c)"
    using lifecycle_frozen [OF l] by blast
  have t: "Ev_timeout No_error \<in> set es \<longrightarrow> in_final_state c"
    using timeout_run [OF s] h by blast
  from m n p f z t
  show "marks (effects c) = (if in_final_state c then [False, True] else [])
     \<and> length (filter is_promise_set (effects c)) = (if in_final_state c then 1 else 0)
     \<and> (promise c = None \<longleftrightarrow> \<not> in_final_state c)
     \<and> \<not> fulfilled_before_armed (effects c)
     \<and> (in_final_state c \<and> enabled e c
          \<longrightarrow> state (fire X e c) = state c
            \<and> marks (effects (fire X e c)) = marks (effects c))
     \<and> (Ev_timeout No_error \<in> set es \<longrightarrow> in_final_state c)"
    by blast
qed

text \<open>The same at a connection whose timeout timer fires right after the start.\<close>

theorem future_fulfilled_once_dispose_first_witness:
  "run example_externals [Ev_timeout No_error]
       (start example_externals (conn_new example_externals example_request))
     = Some example_timed_out
   \<and> Ev_timeout No_error \<in> set [Ev_timeout No_error]
   \<and> in_final_state example_timed_out
   \<and> enabled (Ev_dispose_timer No_error) example_timed_out
   \<and> marks (effects example_timed_out) = [False, True]
   \<and> length (filter is_promise_set (effects example_timed_out)) = 1
   \<and> promise example_timed_out \<noteq> None
   \<and> fulfilled_before_armed (effects example_timed_out) = False
   \<and> state (fire example_externals (Ev_dispose_timer No_error) example_timed_out) = TIMEOUT"
proof -
  have r: "(conn_new example_externals example_request
             = conn_new example_externals example_request
            \<or> conn_new example_externals example_request
             = conn_reuse example_externals example_request example_started
                 (response example_started))
      \<and> run example_externals [Ev_timeout No_error]
            (start example_externals (conn_new example_externals example_request))
          = Some example_timed_out"
    by (simp add: example_timed_out_def example_started_def)
  have f: "in_final_state example_timed_out
      \<and> enabled (Ev_dispose_timer No_error) example_timed_out"
    by code_simp
  have t: "Ev_timeout No_error \<in> set [Ev_timeout No_error]" by simp
  have st: "state example_timed_out = TIMEOUT" by code_simp
  note w = future_fulfilled_once_dispose_first
    [of "conn_new example_externals example_request" example_externals example_request
        example_started "response example_started" "[Ev_timeout No_error]"
        example_timed_out "Ev_dispose_timer No_error", THEN mp, OF r]
  from w f t st r show ?thesis by simp
qed

text \<open>
  The claim as stated, that the fulfilment comes before the dispose timer is armed, fails
  on a connection whose resolution fails: the fifth call of the log is the dispose-timer
  wait and the seventh, the last, is the fulfilment.
\<close>

theorem fulfilled_before_dispose_armed_counterexample:
  "run example_externals [Ev_resolve (Other_ec 1)]
       (start example_externals (conn_new example_externals example_request))
     = Some example_failed
   \<and> map is_dispose_wait (effects example_failed)
       = [False, False, False, False, True, False, False]
   \<and> map is_promise_set (effects example_failed)
       = [False, False, False, False, False, False, True]
   \<and> fulfilled_before_armed (effects example_failed) = False"
proof -
  have "run example_externals [Ev_resolve (Other_ec 1)]
       (start example_externals (conn_new example_externals example_request))
     = Some example_failed"
    by (simp add: example_failed_def example_started_def)
  moreover have "fulfilled_before_armed (effects example_failed) = False" by code_simp
  ultimately show ?thesis by (simp add: example_failed_facts)
qed

text \<open>
  C3. The claim: a 301, 302 or 303 with \<^verbatim>\<open>redirect=false\<close> reaches \<open>SUCCESS\<close> and is
  finalized. In \<^verbatim>\<open>set_success\<close> the \<open>SUCCESS\<close> branch is the \<^verbatim>\<open>else\<close> of the test
  for a redirect code: with a redirect code and redirects off, \<^verbatim>\<open>set_success\<close> returns
  the connection as it was (state, promise and log untouched).
\<close>

theorem set_success_redirect_off:
  "is_redirect_code (status_code (response c)) \<Longrightarrow> \<not> redirect (request (response c)) \<Longrightarrow>
     set_success X c = c"
  by (simp add: set_success_def)

theorem set_success_redirect_off_witness:
  "is_redirect_code (status_code (response example_conn_301))
   \<and> redirect (request (response example_conn_301)) = False
   \<and> state example_conn_301 = READ_CONTENT_LENGTH
   \<and> set_success example_externals example_conn_301 = example_conn_301
   \<and> promise (set_success example_externals example_conn_301) = None"
proof -
  have a: "is_redirect_code (status_code (response example_conn_301))"
    by (simp add: example_conn_301_def is_redirect_code_def)
  have b: "\<not> redirect (request (response example_conn_301))"
    by (simp add: example_conn_301_def example_conn_def conn_new_def response_new_def
        example_request_def)
  have c: "state example_conn_301 = READ_CONTENT_LENGTH"
    by (simp add: example_conn_301_def example_conn_def)
  have d: "promise example_conn_301 = None"
    by (simp add: example_conn_301_def example_conn_def conn_new_def)
  from set_success_redirect_off [OF a b, of example_externals] a b c d show ?thesis by simp
qed

text \<open>
  C4. The claim: when the dispose timer expires in a final state, the state becomes
  \<open>EXPIRED\<close> and \<^verbatim>\<open>is_expired\<close> is true. The handler calls \<^verbatim>\<open>set_state(EXPIRED)\<close>,
  whose guard refuses every final state but \<open>EXPIRED\<close> itself: in a final state other than
  \<open>EXPIRED\<close> the handler changes nothing, and no run of a started connection ever makes
  \<^verbatim>\<open>is_expired\<close> true.
\<close>

theorem dispose_timer_never_expires:
  "(in_final_state c \<and> state c \<noteq> EXPIRED
      \<longrightarrow> on_dispose_timer ec c = c \<and> \<not> is_expired (on_dispose_timer ec c))
   \<and> ((c0 = conn_new X rq \<or> c0 = conn_reuse X rq old prev)
        \<and> run X es (start X c0) = Some c' \<longrightarrow> \<not> is_expired c')"
proof (intro conjI impI)
  assume "in_final_state c \<and> state c \<noteq> EXPIRED"
  then have "on_dispose_timer ec c = c"
    by (simp add: on_dispose_timer_def set_dispose_def set_state_def)
  moreover assume "in_final_state c \<and> state c \<noteq> EXPIRED"
  ultimately show "on_dispose_timer ec c = c" and "\<not> is_expired (on_dispose_timer ec c)"
    by (simp_all add: is_expired_def)
next
  assume h: "(c0 = conn_new X rq \<or> c0 = conn_reuse X rq old prev)
     \<and> run X es (start X c0) = Some c'"
  then have "lifecycle None c0"
    using lifecycle_conn_new lifecycle_conn_reuse by auto
  then have "lifecycle None (start X c0)" by simp
  with h have "lifecycle None c'" using lifecycle_run by blast
  then show "\<not> is_expired c'" by (simp add: lifecycle_def is_expired_def)
qed

theorem dispose_timer_never_expires_witness:
  "in_final_state example_failed \<and> state example_failed = RESOLVE_ERROR
   \<and> on_dispose_timer No_error example_failed = example_failed
   \<and> is_expired (on_dispose_timer No_error example_failed) = False
   \<and> run example_externals [Ev_resolve (Other_ec 1), Ev_dispose_timer No_error]
         (start example_externals (conn_new example_externals example_request))
       = Some example_failed
   \<and> is_expired example_failed = False"
proof -
  have st: "state example_failed = RESOLVE_ERROR" by (rule example_failed_facts)
  then have fin: "in_final_state example_failed" by (simp add: in_final_state_def)
  have d: "on_dispose_timer No_error example_failed = example_failed"
    using st fin by (simp add: on_dispose_timer_def set_dispose_def set_state_def)
  have r: "run example_externals [Ev_resolve (Other_ec 1), Ev_dispose_timer No_error]
         (start example_externals (conn_new example_externals example_request))
       = Some example_failed"
    using example_failed_enabled d
    by (simp add: example_failed_def [symmetric] example_started_def [symmetric])
       (simp add: example_failed_def)
  from dispose_timer_never_expires
         [of example_failed No_error "conn_new example_externals example_request"
             example_externals example_request example_started "response example_started"
             "[Ev_resolve (Other_ec 1), Ev_dispose_timer No_error]" example_failed]
       st fin d r
  show ?thesis by simp
qed

text \<open>
  C5. \<^verbatim>\<open>restart\<close> clears the reused flag and nothing sets it again: after a restart
  and any further completions the connection is not reused, \<^verbatim>\<open>start\<close> resolves
  without restarting, and a socket-closed error on the write or on the status read goes
  to \<^verbatim>\<open>set_error\<close>, which in a state that is not final ends the connection in
  \<open>WRITE_ERROR\<close> or \<open>READ_STATUS_ERROR\<close> and fulfils the promise. The restart itself is what a reused connection
  in a state that is not final does on such an error.
\<close>

theorem restart_only_once:
  "is_socket_closed ec \<and> run X es (restart X c) = Some c'
   \<longrightarrow> \<not> is_reused c'
     \<and> start X c' = setup_timeout (resolve (prepare_parser c'))
     \<and> on_write X ec c' = set_error_ec X WRITE_ERROR ec c'
     \<and> on_read_status X ec c' = set_error_ec X READ_STATUS_ERROR ec c'
     \<and> (\<not> in_final_state c'
          \<longrightarrow> state (on_write X ec c') = WRITE_ERROR
            \<and> code (error (response (on_write X ec c'))) = WRITE_ERROR
            \<and> promise (on_write X ec c') \<noteq> None
            \<and> state (on_read_status X ec c') = READ_STATUS_ERROR
            \<and> code (error (response (on_read_status X ec c'))) = READ_STATUS_ERROR
            \<and> promise (on_read_status X ec c') \<noteq> None)
     \<and> (is_reused c \<and> \<not> in_final_state c
          \<longrightarrow> on_write X ec c = restart X c \<and> on_read_status X ec c = restart X c)"
proof
  assume h: "is_socket_closed ec \<and> run X es (restart X c) = Some c'"
  then have ec: "ec \<noteq> No_error" "ec \<noteq> Operation_aborted"
    using socket_closed_ec by auto
  from h have n: "\<not> m_is_reused c'"
    using not_reused_run [OF restart_clears_reused] by blast
  have w: "on_write X ec c' = set_error_ec X WRITE_ERROR ec c'"
    using n ec by (simp add: on_write_def is_reused_def)
  have r: "on_read_status X ec c' = set_error_ec X READ_STATUS_ERROR ec c'"
    using n ec by (simp add: on_read_status_def is_reused_def)
  have e: "\<not> in_final_state c'
          \<longrightarrow> state (on_write X ec c') = WRITE_ERROR
            \<and> code (error (response (on_write X ec c'))) = WRITE_ERROR
            \<and> promise (on_write X ec c') \<noteq> None
            \<and> state (on_read_status X ec c') = READ_STATUS_ERROR
            \<and> code (error (response (on_read_status X ec c'))) = READ_STATUS_ERROR
            \<and> promise (on_read_status X ec c') \<noteq> None"
    using ec by (simp add: w r set_error_ec_def)
  have f: "is_reused c \<and> \<not> in_final_state c
          \<longrightarrow> on_write X ec c = restart X c \<and> on_read_status X ec c = restart X c"
    using h ec by (simp add: on_write_def on_read_status_def)
  from n w r e f start_not_reused [OF n, of X]
  show "\<not> is_reused c'
     \<and> start X c' = setup_timeout (resolve (prepare_parser c'))
     \<and> on_write X ec c' = set_error_ec X WRITE_ERROR ec c'
     \<and> on_read_status X ec c' = set_error_ec X READ_STATUS_ERROR ec c'
     \<and> (\<not> in_final_state c'
          \<longrightarrow> state (on_write X ec c') = WRITE_ERROR
            \<and> code (error (response (on_write X ec c'))) = WRITE_ERROR
            \<and> promise (on_write X ec c') \<noteq> None
            \<and> state (on_read_status X ec c') = READ_STATUS_ERROR
            \<and> code (error (response (on_read_status X ec c'))) = READ_STATUS_ERROR
            \<and> promise (on_read_status X ec c') \<noteq> None)
     \<and> (is_reused c \<and> \<not> in_final_state c
          \<longrightarrow> on_write X ec c = restart X c \<and> on_read_status X ec c = restart X c)"
    unfolding is_reused_def by blast
qed

theorem restart_only_once_witness:
  "is_socket_closed Broken_pipe
   \<and> is_reused example_reused_started \<and> state example_reused_started = WRITE
   \<and> on_write example_externals Broken_pipe example_reused_started
       = restart example_externals example_reused_started
   \<and> run example_externals [Ev_resolve No_error]
         (restart example_externals example_reused_started) = Some example_restarted
   \<and> is_reused example_restarted = False \<and> state example_restarted = CONNECT
   \<and> state (on_write example_externals Broken_pipe example_restarted) = WRITE_ERROR
   \<and> state (on_read_status example_externals Broken_pipe example_restarted)
       = READ_STATUS_ERROR"
proof -
  have h: "is_socket_closed Broken_pipe
      \<and> run example_externals [Ev_resolve No_error]
           (restart example_externals example_reused_started) = Some example_restarted"
    by (simp add: is_socket_closed_def example_restarted_def)
  have a: "is_reused example_reused_started \<and> \<not> in_final_state example_reused_started"
    by code_simp
  have b: "state example_reused_started = WRITE" by code_simp
  have c: "state example_restarted = CONNECT" by code_simp
  then have d: "\<not> in_final_state example_restarted" by (simp add: in_final_state_def)
  note w = restart_only_once
    [of Broken_pipe example_externals "[Ev_resolve No_error]" example_reused_started
        example_restarted, THEN mp, OF h]
  from w d have e: "\<not> is_reused example_restarted
      \<and> state (on_write example_externals Broken_pipe example_restarted) = WRITE_ERROR
      \<and> state (on_read_status example_externals Broken_pipe example_restarted)
          = READ_STATUS_ERROR"
    by blast
  from w a have f: "on_write example_externals Broken_pipe example_reused_started
       = restart example_externals example_reused_started"
    by blast
  from a b c e f h show ?thesis by simp
qed

text \<open>
  C6, as the code has it. The redirects a connection has followed are the calls of
  \<^verbatim>\<open>uri_t::from_string\<close> on a \<^verbatim>\<open>Location\<close> header in its log. When \<^verbatim>\<open>prepare\<close>
  keeps the redirect cap of a request, on every run of a started connection their number
  is at most the cap of its request, and the response's redirect counter is that number.
  \<^verbatim>\<open>perform_redirect\<close> with the counter at or above the cap is the
  \<open>REDIRECT_EXHAUSTED\<close> error and follows nothing; whenever it follows a redirect, the
  counter was strictly below the cap, and it follows one redirect and adds one to the
  counter. With the cap 0, a redirect code, redirects on and a state that is not final,
  \<^verbatim>\<open>set_success\<close> ends in \<open>REDIRECT_EXHAUSTED\<close> with no redirect followed, the request
  unchanged and the promise fulfilled.
\<close>

theorem redirects_within_cap:
  "(prepare_keeps_cap X \<and> (c0 = conn_new X rq \<or> c0 = conn_reuse X rq old prev)
      \<and> run X es (start X c0) = Some c
    \<longrightarrow> redirects_followed (effects c) \<le> redirect_count rq
      \<and> resp_redirect_count (response c) = redirects_followed (effects c)
      \<and> redirect_count (request (response c)) = redirect_count rq)
   \<and> (redirect_count (request (response c1)) \<le> resp_redirect_count (response c1)
    \<longrightarrow> perform_redirect X c1 = set_error X REDIRECT_EXHAUSTED ''redirect exhausted'' c1
      \<and> redirects_followed (effects (perform_redirect X c1))
          = redirects_followed (effects c1)
      \<and> request (response (perform_redirect X c1)) = request (response c1)
      \<and> resp_redirect_count (response (perform_redirect X c1))
          = resp_redirect_count (response c1))
   \<and> (redirects_followed (effects (perform_redirect X c1))
        \<noteq> redirects_followed (effects c1)
    \<longrightarrow> resp_redirect_count (response c1) < redirect_count (request (response c1))
      \<and> redirects_followed (effects (perform_redirect X c1))
          = redirects_followed (effects c1) + 1
      \<and> resp_redirect_count (response (perform_redirect X c1))
          = resp_redirect_count (response c1) + 1)
   \<and> (redirect_count (request (response c1)) = 0
      \<and> is_redirect_code (status_code (response c1)) \<and> redirect (request (response c1))
      \<and> \<not> in_final_state c1
    \<longrightarrow> state (set_success X c1) = REDIRECT_EXHAUSTED
      \<and> code (error (response (set_success X c1))) = REDIRECT_EXHAUSTED
      \<and> redirects_followed (effects (set_success X c1)) = redirects_followed (effects c1)
      \<and> request (response (set_success X c1)) = request (response c1)
      \<and> resp_redirect_count (response (set_success X c1)) = resp_redirect_count (response c1)
      \<and> promise (set_success X c1) \<noteq> None)"
proof (intro conjI impI)
  assume h: "prepare_keeps_cap X \<and> (c0 = conn_new X rq \<or> c0 = conn_reuse X rq old prev)
      \<and> run X es (start X c0) = Some c"
  then have "within (redirect_count rq) c0"
    using within_conn_new within_conn_reuse by auto
  then have "within (redirect_count rq) (start X c0)" by simp
  with h have w: "within (redirect_count rq) c" using within_run by blast
  from w show "redirects_followed (effects c) \<le> redirect_count rq"
    by (simp add: within_def)
  from w show "resp_redirect_count (response c) = redirects_followed (effects c)"
    by (simp add: within_def)
  from w show "redirect_count (request (response c)) = redirect_count rq"
    by (simp add: within_def)
next
  assume "redirect_count (request (response c1)) \<le> resp_redirect_count (response c1)"
  then have p: "perform_redirect X c1 = set_error X REDIRECT_EXHAUSTED ''redirect exhausted'' c1"
    by (simp add: perform_redirect_def is_redirect_exhausted_def)
  show "perform_redirect X c1 = set_error X REDIRECT_EXHAUSTED ''redirect exhausted'' c1"
    by (rule p)
  show "redirects_followed (effects (perform_redirect X c1))
          = redirects_followed (effects c1)"
    by (simp add: p)
  show "request (response (perform_redirect X c1)) = request (response c1)"
    by (simp add: p)
  show "resp_redirect_count (response (perform_redirect X c1))
          = resp_redirect_count (response c1)"
    by (simp add: p)
next
  assume d: "redirects_followed (effects (perform_redirect X c1))
        \<noteq> redirects_followed (effects c1)"
  then have f: "\<not> (is_redirect_exhausted (response c1)
           \<or> headers_count X (resp_headers (response c1)) ''Location'' = 0)"
    by (auto simp: perform_redirect_followed split: if_splits)
  from f show "resp_redirect_count (response c1) < redirect_count (request (response c1))"
    by (auto simp: is_redirect_exhausted_def)
  from f show "redirects_followed (effects (perform_redirect X c1))
          = redirects_followed (effects c1) + 1"
    by (simp add: perform_redirect_followed)
  from f show "resp_redirect_count (response (perform_redirect X c1))
          = resp_redirect_count (response c1) + 1"
    by (simp add: perform_redirect_counter)
next
  assume z: "redirect_count (request (response c1)) = 0
      \<and> is_redirect_code (status_code (response c1)) \<and> redirect (request (response c1))
      \<and> \<not> in_final_state c1"
  then have p: "set_success X c1 = set_error X REDIRECT_EXHAUSTED ''redirect exhausted'' c1"
    by (simp add: set_success_def perform_redirect_def is_redirect_exhausted_def)
  from z show "state (set_success X c1) = REDIRECT_EXHAUSTED" by (simp add: p)
  from z show "code (error (response (set_success X c1))) = REDIRECT_EXHAUSTED"
    by (simp add: p)
  show "redirects_followed (effects (set_success X c1)) = redirects_followed (effects c1)"
    by (simp add: p)
  show "request (response (set_success X c1)) = request (response c1)" by (simp add: p)
  show "resp_redirect_count (response (set_success X c1)) = resp_redirect_count (response c1)"
    by (simp add: p)
  from z show "promise (set_success X c1) \<noteq> None" by (simp add: p)
qed

text \<open>
  The same on a run of three exchanges with a redirecting server under the cap 2: two
  redirects are followed and the third response ends the connection in
  \<open>REDIRECT_EXHAUSTED\<close>.
\<close>

theorem redirects_within_cap_witness:
  "prepare_keeps_cap example_redirect_externals
   \<and> run example_redirect_externals
         (example_redirect_events @ example_redirect_events @ example_redirect_events)
         (start example_redirect_externals
            (conn_new example_redirect_externals
               (example_request\<lparr> redirect := True, redirect_count := 2 \<rparr>)))
       = Some (example_redirect_run 2
                 (example_redirect_events @ example_redirect_events @ example_redirect_events))
   \<and> state (example_redirect_run 2
               (example_redirect_events @ example_redirect_events @ example_redirect_events))
       = REDIRECT_EXHAUSTED
   \<and> redirects_followed
        (effects (example_redirect_run 2
                    (example_redirect_events @ example_redirect_events
                       @ example_redirect_events))) = 2
   \<and> resp_redirect_count
        (response (example_redirect_run 2
                     (example_redirect_events @ example_redirect_events
                        @ example_redirect_events))) = 2
   \<and> redirect_count (request (response (example_redirect_conn 0 []))) = 0
   \<and> is_redirect_code (status_code (response (example_redirect_conn 0 [])))
   \<and> redirect (request (response (example_redirect_conn 0 [])))
   \<and> in_final_state (example_redirect_conn 0 []) = False
   \<and> state (set_success example_externals (example_redirect_conn 0 [])) = REDIRECT_EXHAUSTED
   \<and> redirects_followed (effects (set_success example_externals (example_redirect_conn 0 [])))
       = 0
   \<and> resp_redirect_count (response (example_redirect_conn 1 [(''Location'', ''other'')])) = 0
   \<and> redirect_count (request (response (example_redirect_conn 1 [(''Location'', ''other'')])))
       = 1
   \<and> redirects_followed
        (effects (perform_redirect example_externals
                    (example_redirect_conn 1 [(''Location'', ''other'')]))) = 1
   \<and> resp_redirect_count
        (response (perform_redirect example_externals
                     (example_redirect_conn 1 [(''Location'', ''other'')]))) = 1"
proof -
  have r: "run example_redirect_externals
         (example_redirect_events @ example_redirect_events @ example_redirect_events)
         (start example_redirect_externals
            (conn_new example_redirect_externals
               (example_request\<lparr> redirect := True, redirect_count := 2 \<rparr>)))
       = Some (example_redirect_run 2
                 (example_redirect_events @ example_redirect_events @ example_redirect_events))"
    by code_simp
  have h1: "prepare_keeps_cap example_redirect_externals
      \<and> (conn_new example_redirect_externals
            (example_request\<lparr> redirect := True, redirect_count := 2 \<rparr>)
           = conn_new example_redirect_externals
               (example_request\<lparr> redirect := True, redirect_count := 2 \<rparr>)
          \<or> conn_new example_redirect_externals
            (example_request\<lparr> redirect := True, redirect_count := 2 \<rparr>)
           = conn_reuse example_redirect_externals
               (example_request\<lparr> redirect := True, redirect_count := 2 \<rparr>)
               example_started (response example_started))
      \<and> run example_redirect_externals
         (example_redirect_events @ example_redirect_events @ example_redirect_events)
         (start example_redirect_externals
            (conn_new example_redirect_externals
               (example_request\<lparr> redirect := True, redirect_count := 2 \<rparr>)))
       = Some (example_redirect_run 2
                 (example_redirect_events @ example_redirect_events @ example_redirect_events))"
    using r by (simp add: example_redirect_prepare_keeps_cap)
  have st: "state (example_redirect_run 2
               (example_redirect_events @ example_redirect_events @ example_redirect_events))
       = REDIRECT_EXHAUSTED"
    by code_simp
  have fl: "redirects_followed
        (effects (example_redirect_run 2
                    (example_redirect_events @ example_redirect_events
                       @ example_redirect_events))) = 2"
    by code_simp
  have h4: "redirect_count (request (response (example_redirect_conn 0 []))) = 0
      \<and> is_redirect_code (status_code (response (example_redirect_conn 0 [])))
      \<and> redirect (request (response (example_redirect_conn 0 [])))
      \<and> \<not> in_final_state (example_redirect_conn 0 [])"
    by code_simp
  have e0: "redirects_followed (effects (example_redirect_conn 0 [])) = 0" by code_simp
  have c1: "resp_redirect_count (response (example_redirect_conn 1 [(''Location'', ''other'')]))
      = 0
      \<and> redirect_count (request (response (example_redirect_conn 1 [(''Location'', ''other'')])))
      = 1
      \<and> redirects_followed (effects (example_redirect_conn 1 [(''Location'', ''other'')])) = 0"
    by code_simp
  have h3: "redirects_followed
        (effects (perform_redirect example_externals
                     (example_redirect_conn 1 [(''Location'', ''other'')])))
      \<noteq> redirects_followed (effects (example_redirect_conn 1 [(''Location'', ''other'')]))"
    by code_simp
  note a = redirects_within_cap
    [of example_redirect_externals
        "conn_new example_redirect_externals
           (example_request\<lparr> redirect := True, redirect_count := 2 \<rparr>)"
        "example_request\<lparr> redirect := True, redirect_count := 2 \<rparr>"
        example_started "response example_started"
        "example_redirect_events @ example_redirect_events @ example_redirect_events"
        "example_redirect_run 2
           (example_redirect_events @ example_redirect_events @ example_redirect_events)"
        "example_redirect_conn 0 []"]
  note b = redirects_within_cap
    [of example_externals "conn_new example_externals example_request" example_request
        example_started "response example_started" "[]" example_started
        "example_redirect_conn 0 []"]
  note c = redirects_within_cap
    [of example_externals "conn_new example_externals example_request" example_request
        example_started "response example_started" "[]" example_started
        "example_redirect_conn 1 [(''Location'', ''other'')]"]
  from a h1 fl have p1: "resp_redirect_count
        (response (example_redirect_run 2
                     (example_redirect_events @ example_redirect_events
                        @ example_redirect_events))) = 2"
    by simp
  from b h4 e0 have p4: "state (set_success example_externals (example_redirect_conn 0 []))
        = REDIRECT_EXHAUSTED
      \<and> redirects_followed
          (effects (set_success example_externals (example_redirect_conn 0 []))) = 0"
    by simp
  from c h3 c1 have p3: "redirects_followed
        (effects (perform_redirect example_externals
                    (example_redirect_conn 1 [(''Location'', ''other'')]))) = 1
      \<and> resp_redirect_count
        (response (perform_redirect example_externals
                     (example_redirect_conn 1 [(''Location'', ''other'')]))) = 1"
    by simp
  from h1 st fl h4 c1 p1 p4 p3 show ?thesis by simp
qed

text \<open>
  The claim as stated, for every 301 with the cap 0, fails when redirects are off: the
  connection does not reach \<open>REDIRECT_EXHAUSTED\<close>.
\<close>

theorem redirects_within_cap_counterexample:
  "redirect_count (request (response example_conn_301)) = 0
   \<and> status_code (response example_conn_301) = 301
   \<and> redirect (request (response example_conn_301)) = False
   \<and> in_final_state example_conn_301 = False
   \<and> state (set_success example_externals example_conn_301) = READ_CONTENT_LENGTH
   \<and> state (fire example_externals (Ev_read_content_length No_error ''moved'')
               (example_conn_301\<lparr> content_length := 5 \<rparr>)) = READ_CONTENT_LENGTH
   \<and> promise (fire example_externals (Ev_read_content_length No_error ''moved'')
                 (example_conn_301\<lparr> content_length := 5 \<rparr>)) = None"
  by code_simp

text \<open>
  C7, as the code has it. For an EOF completion in state \<open>READ_CONTENT_LENGTH\<close>: the
  result is \<open>READ_CONTENT_LENGTH_ERROR\<close> exactly when the buffer holds fewer bytes than
  the content length or the parser parses nothing of the buffer. With fewer bytes the
  error carries the transport message; with at least the declared bytes the parser runs,
  and the connection goes on to \<^verbatim>\<open>set_success\<close> when it parsed something and to the
  error \<^verbatim>\<open>"bad content length"\<close> when it did not.
\<close>

theorem content_length_eof:
  "is_eof ec \<and> state c = READ_CONTENT_LENGTH
   \<longrightarrow> (state (on_read_content_length X ec c) = READ_CONTENT_LENGTH_ERROR
          \<longleftrightarrow> length (response_buf c) < content_length c \<or> \<not> fst (execute_parser X c))
     \<and> (length (response_buf c) < content_length c
          \<longrightarrow> on_read_content_length X ec c
              = set_error X READ_CONTENT_LENGTH_ERROR (ec_message X ec) c)
     \<and> (content_length c \<le> length (response_buf c) \<and> fst (execute_parser X c)
          \<longrightarrow> on_read_content_length X ec c = set_success X (snd (execute_parser X c)))
     \<and> (content_length c \<le> length (response_buf c) \<and> \<not> fst (execute_parser X c)
          \<longrightarrow> on_read_content_length X ec c
              = set_error X READ_CONTENT_LENGTH_ERROR ''bad content length''
                  (snd (execute_parser X c)))"
proof
  assume h: "is_eof ec \<and> state c = READ_CONTENT_LENGTH"
  then have ec: "ec \<noteq> No_error" "ec \<noteq> Operation_aborted" by (auto simp: is_eof_def)
  from h have nf: "\<not> in_final_state c" by (simp add: in_final_state_def)
  have short: "on_read_content_length X ec c
      = set_error X READ_CONTENT_LENGTH_ERROR (ec_message X ec) c"
    if "length (response_buf c) < content_length c"
    using that h ec by (simp add: on_read_content_length_def set_error_ec_def)
  have good: "on_read_content_length X ec c = set_success X (snd (execute_parser X c))"
    if "content_length c \<le> length (response_buf c)" "fst (execute_parser X c)"
    using that h by (simp add: on_read_content_length_def Let_def)
  have bad: "on_read_content_length X ec c
      = set_error X READ_CONTENT_LENGTH_ERROR ''bad content length'' (snd (execute_parser X c))"
    if "content_length c \<le> length (response_buf c)" "\<not> fst (execute_parser X c)"
    using that h by (simp add: on_read_content_length_def Let_def)
  have ok: "state (on_read_content_length X ec c) \<noteq> READ_CONTENT_LENGTH_ERROR"
    if "content_length c \<le> length (response_buf c)" "fst (execute_parser X c)"
    using state_set_success [of X "snd (execute_parser X c)"] h
    by (auto simp: good [OF that])
  have iff: "state (on_read_content_length X ec c) = READ_CONTENT_LENGTH_ERROR
          \<longleftrightarrow> length (response_buf c) < content_length c \<or> \<not> fst (execute_parser X c)"
  proof (cases "length (response_buf c) < content_length c")
    case True
    with short nf show ?thesis by simp
  next
    case False
    then have le: "content_length c \<le> length (response_buf c)" by simp
    show ?thesis
    proof (cases "fst (execute_parser X c)")
      case True
      with ok [OF le] False show ?thesis by simp
    next
      case False
      with bad [OF le] nf show ?thesis by simp
    qed
  qed
  from iff short good bad
  show "(state (on_read_content_length X ec c) = READ_CONTENT_LENGTH_ERROR
          \<longleftrightarrow> length (response_buf c) < content_length c \<or> \<not> fst (execute_parser X c))
     \<and> (length (response_buf c) < content_length c
          \<longrightarrow> on_read_content_length X ec c
              = set_error X READ_CONTENT_LENGTH_ERROR (ec_message X ec) c)
     \<and> (content_length c \<le> length (response_buf c) \<and> fst (execute_parser X c)
          \<longrightarrow> on_read_content_length X ec c = set_success X (snd (execute_parser X c)))
     \<and> (content_length c \<le> length (response_buf c) \<and> \<not> fst (execute_parser X c)
          \<longrightarrow> on_read_content_length X ec c
              = set_error X READ_CONTENT_LENGTH_ERROR ''bad content length''
                  (snd (execute_parser X c)))"
    by blast
qed

theorem content_length_eof_witness:
  "is_eof Eof
   \<and> state (example_body_conn ''he'' 5) = READ_CONTENT_LENGTH
   \<and> length (response_buf (example_body_conn ''he'' 5)) < content_length (example_body_conn ''he'' 5)
   \<and> state (on_read_content_length example_externals Eof (example_body_conn ''he'' 5))
       = READ_CONTENT_LENGTH_ERROR
   \<and> state (example_body_conn ''hello'' 5) = READ_CONTENT_LENGTH
   \<and> content_length (example_body_conn ''hello'' 5)
       \<le> length (response_buf (example_body_conn ''hello'' 5))
   \<and> fst (execute_parser example_externals (example_body_conn ''hello'' 5))
   \<and> on_read_content_length example_externals Eof (example_body_conn ''hello'' 5)
       = set_success example_externals
           (snd (execute_parser example_externals (example_body_conn ''hello'' 5)))
   \<and> state (on_read_content_length example_externals Eof (example_body_conn ''hello'' 5))
       = SUCCESS
   \<and> state (example_body_conn [] 0) = READ_CONTENT_LENGTH
   \<and> content_length (example_body_conn [] 0) \<le> length (response_buf (example_body_conn [] 0))
   \<and> fst (execute_parser example_externals (example_body_conn [] 0)) = False
   \<and> state (on_read_content_length example_externals Eof (example_body_conn [] 0))
       = READ_CONTENT_LENGTH_ERROR"
proof -
  have e: "is_eof Eof" by (simp add: is_eof_def)
  have s1: "state (example_body_conn ''he'' 5) = READ_CONTENT_LENGTH"
    and s2: "state (example_body_conn ''hello'' 5) = READ_CONTENT_LENGTH"
    and s3: "state (example_body_conn [] 0) = READ_CONTENT_LENGTH"
    by (simp_all add: example_body_conn_def example_conn_def)
  have l1: "length (response_buf (example_body_conn ''he'' 5))
      < content_length (example_body_conn ''he'' 5)"
    by (simp add: example_body_conn_def)
  have l2: "content_length (example_body_conn ''hello'' 5)
       \<le> length (response_buf (example_body_conn ''hello'' 5))
     \<and> fst (execute_parser example_externals (example_body_conn ''hello'' 5))"
    by code_simp
  have l3: "content_length (example_body_conn [] 0)
       \<le> length (response_buf (example_body_conn [] 0))
     \<and> \<not> fst (execute_parser example_externals (example_body_conn [] 0))"
    by code_simp
  have ok: "state (on_read_content_length example_externals Eof (example_body_conn ''hello'' 5))
     = SUCCESS"
    by code_simp
  note a = content_length_eof [of Eof "example_body_conn ''he'' 5" example_externals,
      THEN mp, OF conjI [OF e s1]]
  note b = content_length_eof [of Eof "example_body_conn ''hello'' 5" example_externals,
      THEN mp, OF conjI [OF e s2]]
  note c = content_length_eof [of Eof "example_body_conn [] 0" example_externals,
      THEN mp, OF conjI [OF e s3]]
  from a l1 have p1: "state (on_read_content_length example_externals Eof
      (example_body_conn ''he'' 5)) = READ_CONTENT_LENGTH_ERROR"
    by blast
  from b l2 have p2: "on_read_content_length example_externals Eof (example_body_conn ''hello'' 5)
       = set_success example_externals
           (snd (execute_parser example_externals (example_body_conn ''hello'' 5)))"
    by blast
  from c l3 have p3: "state (on_read_content_length example_externals Eof
      (example_body_conn [] 0)) = READ_CONTENT_LENGTH_ERROR"
    by blast
  from e s1 s2 s3 l1 l2 l3 ok p1 p2 p3 show ?thesis by simp
qed

text \<open>
  The claim as stated fails at an EOF with an empty buffer and the content length 0: the
  buffer is not shorter than declared, and the result is \<open>READ_CONTENT_LENGTH_ERROR\<close>.
\<close>

theorem content_length_eof_counterexample:
  "is_eof Eof
   \<and> state (example_body_conn [] 0) = READ_CONTENT_LENGTH
   \<and> (length (response_buf (example_body_conn [] 0)) < content_length (example_body_conn [] 0))
       = False
   \<and> state (on_read_content_length example_externals Eof (example_body_conn [] 0))
       = READ_CONTENT_LENGTH_ERROR
   \<and> error (response (on_read_content_length example_externals Eof (example_body_conn [] 0)))
       = \<lparr> code = READ_CONTENT_LENGTH_ERROR, msg = ''bad content length'' \<rparr>"
  by code_simp

text \<open>
  C8, as the code has it. After \<^verbatim>\<open>on_read_chunk_header\<close> has parsed a chunk header with
  a length \<open>L > 0\<close> (a \<^verbatim>\<open>size_t\<close>): when the buffer holds strictly more than \<open>L\<close>
  bytes, the chunk-data completion is called directly, with no call on the stream in
  between; when it holds at most \<open>L\<close> bytes, a read of at least \<open>L\<close> minus the buffered
  bytes is issued (a read of at least 0 bytes when exactly \<open>L\<close> are buffered).
\<close>

theorem chunk_data_dispatch:
  "fst (execute_parser X c) \<and> 0 < content_length (snd (execute_parser X c))
     \<and> content_length (snd (execute_parser X c)) < 2 ^ 64
   \<longrightarrow> (content_length (snd (execute_parser X c))
            < length (response_buf (snd (execute_parser X c)))
          \<longrightarrow> on_read_chunk_header X No_error c
              = on_read_chunk_data X No_error
                  (set_state READ_CHUNK_DATA (snd (execute_parser X c)))
            \<and> effects (set_state READ_CHUNK_DATA (snd (execute_parser X c)))
              = effects (snd (execute_parser X c)))
     \<and> (length (response_buf (snd (execute_parser X c)))
            \<le> content_length (snd (execute_parser X c))
          \<longrightarrow> on_read_chunk_header X No_error c
              = emit (Stream_async_read
                        (content_length (snd (execute_parser X c))
                           - length (response_buf (snd (execute_parser X c)))))
                  (set_state READ_CHUNK_DATA (snd (execute_parser X c))))"
proof (intro impI conjI)
  assume h: "fst (execute_parser X c) \<and> 0 < content_length (snd (execute_parser X c))
     \<and> content_length (snd (execute_parser X c)) < 2 ^ 64"
  assume "content_length (snd (execute_parser X c))
            < length (response_buf (snd (execute_parser X c)))"
  with h on_read_chunk_header_parsed [of X c]
  show "on_read_chunk_header X No_error c
              = on_read_chunk_data X No_error
                  (set_state READ_CHUNK_DATA (snd (execute_parser X c)))"
    by presburger
  show "effects (set_state READ_CHUNK_DATA (snd (execute_parser X c)))
              = effects (snd (execute_parser X c))"
    by (rule set_state_simps)
next
  assume h: "fst (execute_parser X c) \<and> 0 < content_length (snd (execute_parser X c))
     \<and> content_length (snd (execute_parser X c)) < 2 ^ 64"
  assume le: "length (response_buf (snd (execute_parser X c)))
            \<le> content_length (snd (execute_parser X c))"
  from h have lt: "content_length (snd (execute_parser X c)) < 2 ^ 64" by (rule conjunct2 [THEN conjunct2])
  from le have "\<not> content_length (snd (execute_parser X c))
            < length (response_buf (snd (execute_parser X c)))" by (rule leD)
  with h on_read_chunk_header_parsed [of X c]
  have "on_read_chunk_header X No_error c = read_chunk_data (snd (execute_parser X c))"
    by presburger
  then show "on_read_chunk_header X No_error c
              = emit (Stream_async_read
                        (content_length (snd (execute_parser X c))
                           - length (response_buf (snd (execute_parser X c)))))
                  (set_state READ_CHUNK_DATA (snd (execute_parser X c)))"
    by (simp only: read_chunk_data_deficit [OF le lt])
qed

theorem chunk_data_dispatch_witness:
  "fst (execute_parser example_externals (example_chunk_conn ([CHR ''3'', CR, LF] @ ''abcde'')))
   \<and> content_length
        (snd (execute_parser example_externals
                (example_chunk_conn ([CHR ''3'', CR, LF] @ ''abcde'')))) = 3
   \<and> response_buf
        (snd (execute_parser example_externals
                (example_chunk_conn ([CHR ''3'', CR, LF] @ ''abcde'')))) = ''abcde''
   \<and> on_read_chunk_header example_externals No_error
         (example_chunk_conn ([CHR ''3'', CR, LF] @ ''abcde''))
       = on_read_chunk_data example_externals No_error
           (set_state READ_CHUNK_DATA
              (snd (execute_parser example_externals
                      (example_chunk_conn ([CHR ''3'', CR, LF] @ ''abcde'')))))
   \<and> fst (execute_parser example_externals (example_chunk_conn ([CHR ''3'', CR, LF] @ ''a'')))
   \<and> content_length
        (snd (execute_parser example_externals
                (example_chunk_conn ([CHR ''3'', CR, LF] @ ''a'')))) = 3
   \<and> response_buf
        (snd (execute_parser example_externals
                (example_chunk_conn ([CHR ''3'', CR, LF] @ ''a'')))) = ''a''
   \<and> effects (on_read_chunk_header example_externals No_error
                 (example_chunk_conn ([CHR ''3'', CR, LF] @ ''a'')))
       = [Stream_async_read 2]"
proof -
  have h1: "fst (execute_parser example_externals
                   (example_chunk_conn ([CHR ''3'', CR, LF] @ ''abcde'')))
      \<and> content_length
           (snd (execute_parser example_externals
                   (example_chunk_conn ([CHR ''3'', CR, LF] @ ''abcde'')))) = 3
      \<and> response_buf
           (snd (execute_parser example_externals
                   (example_chunk_conn ([CHR ''3'', CR, LF] @ ''abcde'')))) = ''abcde''"
    by code_simp
  have h2: "fst (execute_parser example_externals
                   (example_chunk_conn ([CHR ''3'', CR, LF] @ ''a'')))
      \<and> content_length
           (snd (execute_parser example_externals
                   (example_chunk_conn ([CHR ''3'', CR, LF] @ ''a'')))) = 3
      \<and> response_buf
           (snd (execute_parser example_externals
                   (example_chunk_conn ([CHR ''3'', CR, LF] @ ''a'')))) = ''a''
      \<and> effects
           (snd (execute_parser example_externals
                   (example_chunk_conn ([CHR ''3'', CR, LF] @ ''a'')))) = []"
    by code_simp
  note a = chunk_data_dispatch
    [of example_externals "example_chunk_conn ([CHR ''3'', CR, LF] @ ''abcde'')"]
  note b = chunk_data_dispatch
    [of example_externals "example_chunk_conn ([CHR ''3'', CR, LF] @ ''a'')"]
  from a h1 have p1: "on_read_chunk_header example_externals No_error
         (example_chunk_conn ([CHR ''3'', CR, LF] @ ''abcde''))
       = on_read_chunk_data example_externals No_error
           (set_state READ_CHUNK_DATA
              (snd (execute_parser example_externals
                      (example_chunk_conn ([CHR ''3'', CR, LF] @ ''abcde'')))))"
    by simp
  from b h2 have "on_read_chunk_header example_externals No_error
         (example_chunk_conn ([CHR ''3'', CR, LF] @ ''a''))
       = emit (Stream_async_read 2)
           (set_state READ_CHUNK_DATA
              (snd (execute_parser example_externals
                      (example_chunk_conn ([CHR ''3'', CR, LF] @ ''a'')))))"
    by simp
  with h2 have p2: "effects (on_read_chunk_header example_externals No_error
                 (example_chunk_conn ([CHR ''3'', CR, LF] @ ''a'')))
       = [Stream_async_read 2]"
    by simp
  from h1 h2 p1 p2 show ?thesis by simp
qed

text \<open>
  The claim as stated fails when the buffer holds exactly the chunk length: after the
  header \<^verbatim>\<open>3 CR LF\<close> with \<^verbatim>\<open>abc\<close> buffered, a read is issued and the parser has not
  been fed.
\<close>

theorem chunk_data_dispatch_counterexample:
  "fst (execute_parser example_externals (example_chunk_conn ([CHR ''3'', CR, LF] @ ''abc'')))
   \<and> content_length
        (snd (execute_parser example_externals
                (example_chunk_conn ([CHR ''3'', CR, LF] @ ''abc'')))) = 3
   \<and> response_buf
        (snd (execute_parser example_externals
                (example_chunk_conn ([CHR ''3'', CR, LF] @ ''abc'')))) = ''abc''
   \<and> effects (on_read_chunk_header example_externals No_error
                 (example_chunk_conn ([CHR ''3'', CR, LF] @ ''abc'')))
       = [Stream_async_read 0]
   \<and> raw (on_read_chunk_header example_externals No_error
             (example_chunk_conn ([CHR ''3'', CR, LF] @ ''abc''))) = []
   \<and> response_buf (on_read_chunk_header example_externals No_error
                      (example_chunk_conn ([CHR ''3'', CR, LF] @ ''abc''))) = ''abc''
   \<and> on_read_chunk_header example_externals No_error
         (example_chunk_conn ([CHR ''3'', CR, LF] @ ''abc''))
       \<noteq> on_read_chunk_data example_externals No_error
           (set_state READ_CHUNK_DATA
              (snd (execute_parser example_externals
                      (example_chunk_conn ([CHR ''3'', CR, LF] @ ''abc'')))))"
  by code_simp

text \<open>
  C10, as the code has it. For every \<^verbatim>\<open>Send\<close> that returns (the future of the previous
  connection, if there is one, holds a response): with no previous connection the request
  is prepared and a fresh connection is constructed and started; with a previous
  connection, a fresh one is constructed when the request (after the first statement of
  \<^verbatim>\<open>Send\<close>) differs from the request of the previous response in domain, port or
  protocol, and otherwise the request's cookies are updated with the cookies of the
  previous response and the previous connection is reused. The connection constructed is
  a fresh one exactly in the first two cases. When the future of the previous connection
  holds an exception, \<^verbatim>\<open>Send\<close> rethrows it.
\<close>

theorem send_fresh_or_reused:
  "(Send X s = Inr s'
   \<longrightarrow> (connection s = None
          \<longrightarrow> session_request s' = prepare X (session_request s)
            \<and> connection s' = Some (start X (conn_new X (session_request s'))))
     \<and> (connection s = Some conn
          \<longrightarrow> (\<exists>prev. future_get conn = Inr prev
                \<and> (\<not> can_reuse_connection (send_request X s prev) (request prev)
                     \<longrightarrow> session_request s' = send_request X s prev
                       \<and> connection s' = Some (start X (conn_new X (session_request s'))))
                \<and> (can_reuse_connection (send_request X s prev) (request prev)
                     \<longrightarrow> session_request s'
                         = (send_request X s prev)
                             \<lparr> cookies := cookies_t_update X (cookies (send_request X s prev))
                                            (resp_cookies prev) \<rparr>
                       \<and> connection s'
                         = Some (start X (conn_reuse X (session_request s') conn prev)))))
     \<and> (\<exists>s1 c1. Send_construct X s = Inr s1 \<and> connection s1 = Some c1
          \<and> s' = s1\<lparr> connection := Some (start X c1) \<rparr>
          \<and> (\<not> m_is_reused c1
               \<longleftrightarrow> connection s = None
                 \<or> (\<exists>conn prev. connection s = Some conn \<and> future_get conn = Inr prev
                      \<and> \<not> can_reuse_connection (send_request X s prev) (request prev)))))
   \<and> (connection s = Some conn \<and> promise conn = Some (Exception ex)
        \<longrightarrow> Send X s = Inl (Future_exception ex))"
proof (rule conjI)
  show "Send X s = Inr s'
   \<longrightarrow> (connection s = None
          \<longrightarrow> session_request s' = prepare X (session_request s)
            \<and> connection s' = Some (start X (conn_new X (session_request s'))))
     \<and> (connection s = Some conn
          \<longrightarrow> (\<exists>prev. future_get conn = Inr prev
                \<and> (\<not> can_reuse_connection (send_request X s prev) (request prev)
                     \<longrightarrow> session_request s' = send_request X s prev
                       \<and> connection s' = Some (start X (conn_new X (session_request s'))))
                \<and> (can_reuse_connection (send_request X s prev) (request prev)
                     \<longrightarrow> session_request s'
                         = (send_request X s prev)
                             \<lparr> cookies := cookies_t_update X (cookies (send_request X s prev))
                                            (resp_cookies prev) \<rparr>
                       \<and> connection s'
                         = Some (start X (conn_reuse X (session_request s') conn prev)))))
     \<and> (\<exists>s1 c1. Send_construct X s = Inr s1 \<and> connection s1 = Some c1
          \<and> s' = s1\<lparr> connection := Some (start X c1) \<rparr>
          \<and> (\<not> m_is_reused c1
               \<longleftrightarrow> connection s = None
                 \<or> (\<exists>conn prev. connection s = Some conn \<and> future_get conn = Inr prev
                      \<and> \<not> can_reuse_connection (send_request X s prev) (request prev))))"
  proof
    assume h: "Send X s = Inr s'"
    show "(connection s = None
            \<longrightarrow> session_request s' = prepare X (session_request s)
              \<and> connection s' = Some (start X (conn_new X (session_request s'))))
       \<and> (connection s = Some conn
            \<longrightarrow> (\<exists>prev. future_get conn = Inr prev
                  \<and> (\<not> can_reuse_connection (send_request X s prev) (request prev)
                       \<longrightarrow> session_request s' = send_request X s prev
                         \<and> connection s' = Some (start X (conn_new X (session_request s'))))
                  \<and> (can_reuse_connection (send_request X s prev) (request prev)
                       \<longrightarrow> session_request s'
                           = (send_request X s prev)
                               \<lparr> cookies := cookies_t_update X (cookies (send_request X s prev))
                                              (resp_cookies prev) \<rparr>
                         \<and> connection s'
                           = Some (start X (conn_reuse X (session_request s') conn prev)))))
       \<and> (\<exists>s1 c1. Send_construct X s = Inr s1 \<and> connection s1 = Some c1
            \<and> s' = s1\<lparr> connection := Some (start X c1) \<rparr>
            \<and> (\<not> m_is_reused c1
                 \<longleftrightarrow> connection s = None
                   \<or> (\<exists>conn prev. connection s = Some conn \<and> future_get conn = Inr prev
                        \<and> \<not> can_reuse_connection (send_request X s prev) (request prev))))"
    proof (cases "connection s")
      case None
      with h show ?thesis
        by (auto simp: Send_def Send_construct_def Let_def conn_new_def)
    next
      case (Some old)
      with h obtain prev where p: "future_get old = Inr prev"
        by (auto simp: Send_def Send_construct_def split: sum.splits)
      show ?thesis
      proof (cases "can_reuse_connection (send_request X s prev) (request prev)")
        case True
        with h Some p show ?thesis
          by (auto simp: Send_def Send_construct_def Let_def send_request_def conn_reuse_def)
      next
        case False
        with h Some p show ?thesis
          by (auto simp: Send_def Send_construct_def Let_def send_request_def conn_new_def)
      qed
    qed
  qed
  show "connection s = Some conn \<and> promise conn = Some (Exception ex)
        \<longrightarrow> Send X s = Inl (Future_exception ex)"
    by (simp add: Send_def Send_construct_def future_get_def)
qed

theorem send_fresh_or_reused_witness:
  "Send example_externals (example_session ''host'' None) = Inr (example_sent ''host'' None)
   \<and> connection (example_session ''host'' None) = None
   \<and> connection (example_sent ''host'' None)
       = Some (start example_externals
                 (conn_new example_externals (session_request (example_sent ''host'' None))))
   \<and> Send example_externals (example_session ''host'' (Some example_failed))
       = Inr (example_sent ''host'' (Some example_failed))
   \<and> future_get example_failed = Inr (response example_failed)
   \<and> can_reuse_connection
        (send_request example_externals (example_session ''host'' (Some example_failed))
           (response example_failed))
        (request (response example_failed))
   \<and> connection (example_sent ''host'' (Some example_failed))
       = Some (start example_externals
                 (conn_reuse example_externals
                    (session_request (example_sent ''host'' (Some example_failed)))
                    example_failed (response example_failed)))
   \<and> Send example_externals (example_session ''other'' (Some example_failed))
       = Inr (example_sent ''other'' (Some example_failed))
   \<and> can_reuse_connection
        (send_request example_externals (example_session ''other'' (Some example_failed))
           (response example_failed))
        (request (response example_failed)) = False
   \<and> connection (example_sent ''other'' (Some example_failed))
       = Some (start example_externals
                 (conn_new example_externals
                    (session_request (example_sent ''other'' (Some example_failed)))))
   \<and> connection (example_session ''other'' (Some example_thrown)) = Some example_thrown
   \<and> promise example_thrown
       = Some (Exception \<lparr> code = RESOLVE_ERROR, msg = ''transport error'' \<rparr>)
   \<and> Send example_externals (example_session ''other'' (Some example_thrown))
       = Inl (Future_exception \<lparr> code = RESOLVE_ERROR, msg = ''transport error'' \<rparr>)"
proof -
  have s1: "Send example_externals (example_session ''host'' None)
      = Inr (example_sent ''host'' None)"
    by code_simp
  have s2: "Send example_externals (example_session ''host'' (Some example_failed))
      = Inr (example_sent ''host'' (Some example_failed))"
    by code_simp
  have s3: "Send example_externals (example_session ''other'' (Some example_failed))
      = Inr (example_sent ''other'' (Some example_failed))"
    by code_simp
  have n: "connection (example_session ''host'' None) = None"
    and c2: "connection (example_session ''host'' (Some example_failed)) = Some example_failed"
    and c3: "connection (example_session ''other'' (Some example_failed)) = Some example_failed"
    by (simp_all add: example_session_def)
  have g: "future_get example_failed = Inr (response example_failed)" by code_simp
  have r2: "can_reuse_connection
        (send_request example_externals (example_session ''host'' (Some example_failed))
           (response example_failed))
        (request (response example_failed))"
    by code_simp
  have r3: "\<not> can_reuse_connection
        (send_request example_externals (example_session ''other'' (Some example_failed))
           (response example_failed))
        (request (response example_failed))"
    by code_simp
  note a = send_fresh_or_reused
    [of example_externals "example_session ''host'' None" "example_sent ''host'' None"
        example_failed, THEN conjunct1, THEN mp, OF s1]
  note b = send_fresh_or_reused
    [of example_externals "example_session ''host'' (Some example_failed)"
        "example_sent ''host'' (Some example_failed)" example_failed, THEN conjunct1, THEN mp, OF s2]
  note c = send_fresh_or_reused
    [of example_externals "example_session ''other'' (Some example_failed)"
        "example_sent ''other'' (Some example_failed)" example_failed, THEN conjunct1, THEN mp, OF s3]
  from a n have p1: "connection (example_sent ''host'' None)
       = Some (start example_externals
                 (conn_new example_externals (session_request (example_sent ''host'' None))))"
    by blast
  from b c2 g r2 have p2: "connection (example_sent ''host'' (Some example_failed))
       = Some (start example_externals
                 (conn_reuse example_externals
                    (session_request (example_sent ''host'' (Some example_failed)))
                    example_failed (response example_failed)))"
    by auto
  from c c3 g r3 have p3: "connection (example_sent ''other'' (Some example_failed))
       = Some (start example_externals
                 (conn_new example_externals
                    (session_request (example_sent ''other'' (Some example_failed)))))"
    by auto
  have t: "connection (example_session ''other'' (Some example_thrown)) = Some example_thrown
      \<and> promise example_thrown
          = Some (Exception \<lparr> code = RESOLVE_ERROR, msg = ''transport error'' \<rparr>)"
    by code_simp
  note d = send_fresh_or_reused
    [of example_externals "example_session ''other'' (Some example_thrown)"
        "example_sent ''other'' (Some example_thrown)" example_thrown
        "\<lparr> code = RESOLVE_ERROR, msg = ''transport error'' \<rparr>",
     THEN conjunct2, THEN mp, OF t]
  from s1 s2 s3 n g r2 r3 p1 p2 p3 t d show ?thesis by simp
qed

text \<open>
  The claim as stated fails for a \<^verbatim>\<open>Send\<close> after a connection that ended with an error
  under \<^verbatim>\<open>throw_on_error\<close>: the request differs in domain, and \<^verbatim>\<open>Send\<close> rethrows the
  stored exception instead of constructing a connection.
\<close>

theorem send_fresh_or_reused_counterexample:
  "connection (example_session ''other'' (Some example_thrown)) = Some example_thrown
   \<and> can_reuse_connection
        (prepare example_externals
           (session_request (example_session ''other'' (Some example_thrown))))
        (request (response example_thrown)) = False
   \<and> promise example_thrown
       = Some (Exception \<lparr> code = RESOLVE_ERROR, msg = ''transport error'' \<rparr>)
   \<and> Send example_externals (example_session ''other'' (Some example_thrown))
       = Inl (Future_exception \<lparr> code = RESOLVE_ERROR, msg = ''transport error'' \<rparr>)"
  by code_simp

end
